theory Spec2Isabelle
  imports Complex_Main "HOL-Library.Word" "HOL-Library.Signed_Division"
begin

section \<open>The Python module (libpyomnitrace.cpp): initialize\<close>

text \<open>
  The module keeps two static flags, \<open>_is_initialized\<close> and \<open>_is_finalized\<close>. Everything
  else \<open>initialize\<close> does goes to functions of the tracer library that are not part of
  this file (\<open>omnitrace_set_mpi\<close>, \<open>omnitrace_init\<close>) and to the process environment
  (\<open>tim::set_env\<close>). The model records each library call with its arguments, in call
  order, and keeps the environment as a map. The session a call to \<open>initialize\<close>
  establishes is the \<open>omnitrace_init\<close> call it makes.
\<close>

datatype py_exception =
    RuntimeError string    \<comment> \<open>\<open>throw std::runtime_error(msg)\<close>\<close>
  | CastError              \<comment> \<open>\<open>itr.cast<std::string>()\<close> on an object that is no \<open>str\<close>\<close>
  | OutOfRange             \<comment> \<open>\<open>std::string::substr(pos)\<close> with \<open>pos > size()\<close>\<close>
  | ErrorAlreadySet        \<comment> \<open>a Python exception rethrown by \<open>throw;\<close>\<close>

text \<open>An element of a \<open>py::list\<close>: a \<open>str\<close>, or any other Python object.\<close>

datatype py_object = PyStr string | PyOther

text \<open>
  What \<open>py::module::import("mpi4py")\<close> does: it returns the module, raises
  \<open>ImportError\<close>, or raises some other exception.
\<close>

datatype import_result = Imported | RaisesImportError | RaisesOther

record module_state =
  is_initialized :: bool
  is_finalized :: bool
  set_mpi_calls :: "(bool \<times> bool) list"
  init_calls :: "(string \<times> bool \<times> string) list"
  finalize_calls :: nat
  environ :: "string \<rightharpoonup> string"

definition module_loaded :: "(string \<rightharpoonup> string) \<Rightarrow> module_state" where
  "module_loaded env =
     \<lparr>is_initialized = False, is_finalized = False, set_mpi_calls = [], init_calls = [],
      finalize_calls = 0, environ = env\<rparr>"

text \<open>
  \<open>_get_use_mpi\<close>: true when the import succeeds, false on \<open>ImportError\<close>; any
  other exception is rethrown.
\<close>

definition get_use_mpi :: "import_result \<Rightarrow> py_exception + bool" where
  "get_use_mpi r =
     (case r of
        Imported \<Rightarrow> Inr True
      | RaisesImportError \<Rightarrow> Inr False
      | RaisesOther \<Rightarrow> Inl ErrorAlreadySet)"

definition already_initialized :: py_exception where
  "already_initialized = RuntimeError ''Error! omnitrace is already initialized''"

text \<open>
  The overload taking a \<open>std::string\<close>. The result is the exception that leaves the
  function (if any) and the state at that point: the flag is set before the import runs,
  so it stays set when the import raises. The third overload of the source has the same
  parameter type as the first, which therefore takes every call with a \<open>str\<close>; its
  body does the same.
\<close>

definition initialize_str ::
  "import_result \<Rightarrow> string \<Rightarrow> module_state \<Rightarrow> py_exception option \<times> module_state" where
  "initialize_str imp v st =
     (if is_initialized st then (Some already_initialized, st)
      else
        let st1 = st\<lparr>is_initialized := True\<rparr> in
        case get_use_mpi imp of
          Inl e \<Rightarrow> (Some e, st1)
        | Inr use_mpi \<Rightarrow>
            (None, st1\<lparr>set_mpi_calls := set_mpi_calls st1 @ [(use_mpi, False)],
                       init_calls := init_calls st1 @ [(''trace'', False, v)]\<rparr>))"

text \<open>\<open>itr.cast<std::string>()\<close>.\<close>

definition cast_string :: "py_object \<Rightarrow> py_exception + string" where
  "cast_string obj = (case obj of PyStr s \<Rightarrow> Inr s | PyOther \<Rightarrow> Inl CastError)"

text \<open>
  The loop over the list: \<open>_cmd\<close> takes the element while it is empty, and
  \<open>_cmd_line\<close> grows by a space and the element.
\<close>

fun argv_loop :: "py_object list \<Rightarrow> string \<times> string \<Rightarrow> py_exception + (string \<times> string)" where
  "argv_loop [] acc = Inr acc"
| "argv_loop (itr # rest) (cmd, cmd_line) =
     (case cast_string itr of
        Inl e \<Rightarrow> Inl e
      | Inr s \<Rightarrow> argv_loop rest (if cmd = [] then s else cmd, cmd_line @ '' '' @ s))"

text \<open>
  \<open>std::string::find_first_not_of(c)\<close>: the first position holding another character,
  \<open>None\<close> for \<open>npos\<close>. \<open>std::string::substr(pos)\<close> throws when \<open>pos > size()\<close>,
  which \<open>npos\<close> always is.
\<close>

fun find_first_not_of :: "string \<Rightarrow> char \<Rightarrow> nat option" where
  "find_first_not_of [] c = None"
| "find_first_not_of (x # xs) c =
     (if x \<noteq> c then Some 0 else map_option Suc (find_first_not_of xs c))"

definition substr :: "string \<Rightarrow> nat option \<Rightarrow> py_exception + string" where
  "substr s pos =
     (case pos of
        None \<Rightarrow> Inl OutOfRange
      | Some p \<Rightarrow> if p > length s then Inl OutOfRange else Inr (drop p s))"

text \<open>
  \<open>tim::set_env(name, value, overwrite)\<close> belongs to the timemory library and wraps
  \<open>setenv(3)\<close>: with \<open>overwrite = 0\<close> a variable that exists keeps its value.
\<close>

definition set_env ::
  "string \<Rightarrow> string \<Rightarrow> nat \<Rightarrow> (string \<rightharpoonup> string) \<Rightarrow> (string \<rightharpoonup> string)" where
  "set_env name v overwrite env =
     (if overwrite = 0 \<and> env name \<noteq> None then env else env(name \<mapsto> v))"

text \<open>
  The overload taking a \<open>py::list\<close>. The statement
  \<open>_cmd_line.substr(_cmd_line.find_first_not_of(' '));\<close> computes the command line without
  its leading spaces and discards it: what the model keeps of it is the exception it can
  throw. The variable is then set from \<open>_cmd_line\<close> itself.
\<close>

definition initialize_list ::
  "import_result \<Rightarrow> py_object list \<Rightarrow> module_state \<Rightarrow> py_exception option \<times> module_state" where
  "initialize_list imp v st =
     (if is_initialized st then (Some already_initialized, st)
      else
        let st1 = st\<lparr>is_initialized := True\<rparr> in
        case get_use_mpi imp of
          Inl e \<Rightarrow> (Some e, st1)
        | Inr use_mpi \<Rightarrow>
            let st2 = st1\<lparr>set_mpi_calls := set_mpi_calls st1 @ [(use_mpi, False)]\<rparr> in
            (case argv_loop v ([], []) of
               Inl e \<Rightarrow> (Some e, st2)
             | Inr (cmd, cmd_line) \<Rightarrow>
                 if cmd_line \<noteq> [] then
                   (case substr cmd_line (find_first_not_of cmd_line CHR '' '') of
                      Inl e \<Rightarrow> (Some e, st2)
                    | Inr stripped \<Rightarrow>
                        (None, st2\<lparr>environ :=
                                      set_env ''OMNITRACE_COMMAND_LINE'' cmd_line 0 (environ st2),
                                    init_calls := init_calls st2 @ [(''trace'', False, cmd)]\<rparr>))
                 else (None, st2\<lparr>init_calls := init_calls st2 @ [(''trace'', False, cmd)]\<rparr>)))"

text \<open>
  The Python-level function: pybind11 picks the overload by the argument's type.
\<close>

datatype init_arg = ArgStr string | ArgList "py_object list"

definition initialize ::
  "import_result \<Rightarrow> init_arg \<Rightarrow> module_state \<Rightarrow> py_exception option \<times> module_state" where
  "initialize imp a st =
     (case a of ArgStr s \<Rightarrow> initialize_str imp s st | ArgList v \<Rightarrow> initialize_list imp v st)"

text \<open>
  The argument lists on which the list overload's own statements cannot throw: every
  element is a \<open>str\<close>, and the list is empty or some element holds a character that is
  not a space.
\<close>

fun all_str :: "py_object list \<Rightarrow> bool" where
  "all_str [] = True"
| "all_str (PyStr s # rest) = all_str rest"
| "all_str (PyOther # rest) = False"

fun some_non_space :: "py_object list \<Rightarrow> bool" where
  "some_non_space [] = False"
| "some_non_space (PyStr s # rest) = (list_ex (\<lambda>c. c \<noteq> CHR '' '') s \<or> some_non_space rest)"
| "some_non_space (PyOther # rest) = some_non_space rest"

definition plain_arg :: "init_arg \<Rightarrow> bool" where
  "plain_arg a =
     (case a of ArgStr s \<Rightarrow> True | ArgList v \<Rightarrow> all_str v \<and> (v = [] \<or> some_non_space v))"

text \<open>The command line the spec describes: the elements with one space between them.\<close>

fun join_spaces :: "string list \<Rightarrow> string" where
  "join_spaces [] = []"
| "join_spaces [s] = s"
| "join_spaces (s # t # rest) = s @ '' '' @ join_spaces (t # rest)"

text \<open>The strings of a list, in order.\<close>

fun strs_of :: "py_object list \<Rightarrow> string list" where
  "strs_of [] = []"
| "strs_of (PyStr s # rest) = s # strs_of rest"
| "strs_of (PyOther # rest) = strs_of rest"

section \<open>The interpreter trace adapter (libpyomnitrace.cpp): profiler_function\<close>

text \<open>
  \<open>struct config\<close>, field by field. The regex collections are \<open>std::unordered_set\<close>s
  of strings; the code only asks whether some member matches, so a list of the members
  stands for the set. An entry of \<open>records\<close> is the closure
  \<open>[&_label_ref]() { omnitrace_pop_region(_label_ref.c_str()); }\<close>: it is known by the
  label it captured. \<open>emplace_back\<close> appends, \<open>back\<close> and \<open>pop_back\<close> work on the last
  element.
\<close>

record config =
  is_running :: bool
  trace_c :: bool
  include_internal :: bool
  include_args :: bool
  include_line :: bool
  include_filename :: bool
  full_filepath :: bool
  ignore_stack_depth :: int
  base_stack_depth :: int
  verbose :: int
  depth_tracker :: int
  base_module_path :: string
  restrict_functions :: "string list"
  restrict_filenames :: "string list"
  include_functions :: "string list"
  include_filenames :: "string list"
  exclude_functions :: "string list"
  exclude_filenames :: "string list"
  records :: "string list"

definition default_exclude_functions :: "string list" where
  "default_exclude_functions = [''^<.*>$'']"

definition default_exclude_filenames :: "string list" where
  "default_exclude_filenames = [''(encoder|decoder|threading).py$'', ''^<.*>$'']"

definition default_config :: config where
  "default_config =
     \<lparr>is_running = False, trace_c = False, include_internal = False, include_args = False,
      include_line = False, include_filename = False, full_filepath = False,
      ignore_stack_depth = 0, base_stack_depth = - 1, verbose = 0, depth_tracker = 0,
      base_module_path = [], restrict_functions = [], restrict_filenames = [],
      include_functions = [], include_filenames = [],
      exclude_functions = default_exclude_functions,
      exclude_filenames = default_exclude_filenames, records = []\<rparr>"

text \<open>
  What the function reads of the frame: the code object's name and file name, the current
  line, and what \<open>inspect.formatargvalues(*inspect.getargvalues(frame))\<close> does when
  \<open>_get_args\<close> calls it: it returns a text, raises \<open>AttributeError\<close>, or raises
  another exception.
\<close>

datatype args_result = ArgsText string | ArgsAttributeError | ArgsOtherError

record frame =
  co_name :: string
  co_filename :: string
  f_lineno :: int
  argvalues :: args_result

datatype trace_what = PyTrace_CALL | PyTrace_C_CALL | PyTrace_RETURN | PyTrace_C_RETURN

datatype region_event = PushRegion string | PopRegion string

text \<open>
  The state a thread works on: its configuration, its guard \<open>_disable\<close>, the static
  \<open>_omnitrace_path\<close> (one for the process, unset until control first passes its
  declaration), its interned labels, and the calls of \<open>omnitrace_push_region\<close> and
  \<open>omnitrace_pop_region\<close> made so far, oldest first.
\<close>

record profiler_state =
  cfg :: config
  disable :: bool
  omnitrace_path :: "string option"
  labels :: "string set"
  regions :: "region_event list"

text \<open>
  How a call can fail: \<open>_get_args\<close> rethrows a Python exception, or \<open>records.back()\<close>
  is evaluated on an empty vector, which is undefined behaviour.
\<close>

datatype profiler_error = PythonError | EmptyRecordsBack

definition what_of :: "string \<Rightarrow> trace_what option" where
  "what_of swhat =
     (if swhat = ''call'' then Some PyTrace_CALL
      else if swhat = ''c_call'' then Some PyTrace_C_CALL
      else if swhat = ''return'' then Some PyTrace_RETURN
      else if swhat = ''c_return'' then Some PyTrace_C_RETURN
      else None)"

definition update_ignore_stack_depth :: "trace_what \<Rightarrow> config \<Rightarrow> config" where
  "update_ignore_stack_depth what c =
     (case what of
        PyTrace_CALL \<Rightarrow> c\<lparr>ignore_stack_depth := ignore_stack_depth c + 1\<rparr>
      | PyTrace_RETURN \<Rightarrow> c\<lparr>ignore_stack_depth := ignore_stack_depth c - 1\<rparr>
      | PyTrace_C_CALL \<Rightarrow> c
      | PyTrace_C_RETURN \<Rightarrow> c)"

definition get_args :: "frame \<Rightarrow> profiler_error + string" where
  "get_args fr =
     (case argvalues fr of
        ArgsText s \<Rightarrow> Inr s
      | ArgsAttributeError \<Rightarrow> Inr []
      | ArgsOtherError \<Rightarrow> Inl PythonError)"

text \<open>Decimal digits, for the line number that \<open>TIMEMORY_JOIN\<close> streams into the label.\<close>

fun digits :: "nat \<Rightarrow> string" where
  "digits n =
     (if n < 10 then [''0123456789'' ! n] else digits (n div 10) @ [''0123456789'' ! (n mod 10)])"

definition string_of_int :: "int \<Rightarrow> string" where
  "string_of_int i = (if i < 0 then ''-'' @ digits (nat (- i)) else digits (nat i))"

text \<open>\<open>_get_label\<close>, statement by statement.\<close>

definition get_label :: "config \<Rightarrow> frame \<Rightarrow> string \<Rightarrow> string \<Rightarrow> string \<Rightarrow> profiler_error + string" where
  "get_label c fr func filename fullpath =
     (let bracket = include_filename c;
          f1 = (if bracket then ''['' @ func else func)
      in case (if include_args c then get_args fr else Inr []) of
           Inl e \<Rightarrow> Inl e
         | Inr args \<Rightarrow>
             let f2 = f1 @ args;
                 f3 = (if bracket then f2 @ '']'' else f2);
                 f4 = (if include_filename c
                       then (if full_filepath c then f3 @ ''['' @ fullpath
                             else f3 @ ''['' @ filename)
                       else f3)
             in Inr (if include_line c \<and> include_filename c
                     then f4 @ '':'' @ string_of_int (f_lineno fr) @ '']''
                     else if include_line c then f4 @ '':'' @ string_of_int (f_lineno fr)
                     else if include_filename c then f4 @ '']''
                     else f4))"

text \<open>
  \<open>_find_matching\<close>: some expression of the collection matches the name. The matcher
  \<open>std::regex_search(name, std::regex(expr, egrep | optimize))\<close> is the standard
  library's; the model takes it as the parameter \<open>rs\<close> (name first, expression second).
\<close>

definition find_matching :: "(string \<Rightarrow> string \<Rightarrow> bool) \<Rightarrow> string list \<Rightarrow> string \<Rightarrow> bool" where
  "find_matching rs expr name = list_ex (\<lambda>itr. rs name itr) expr"

text \<open>
  A block of filters either returns from \<open>profiler_function\<close>, leaving the configuration
  as given, or goes on with the flag \<open>_force\<close>.
\<close>

datatype filtered = Stop config | Go bool

definition function_filters ::
  "(string \<Rightarrow> string \<Rightarrow> bool) \<Rightarrow> config \<Rightarrow> trace_what \<Rightarrow> string \<Rightarrow> filtered" where
  "function_filters rs c what func =
     (let force = (if restrict_functions c \<noteq> [] then find_matching rs (restrict_functions c) func
                   else False)
      in if restrict_functions c \<noteq> [] \<and> \<not> force then Stop c
         else if \<not> force then
           (if find_matching rs (include_functions c) func then Go True
            else if find_matching rs (exclude_functions c) func then
              (if \<not> find_matching rs default_exclude_functions func
               then Stop (update_ignore_stack_depth what c)
               else Stop c)
            else Go force)
         else Go force)"

text \<open>
  \<open>strncmp(_full.c_str(), _omnitrace_path.c_str(), _omnitrace_path.length()) == 0\<close>: the
  path is a prefix of the file name.
\<close>

definition starts_with :: "string \<Rightarrow> string \<Rightarrow> bool" where
  "starts_with full path = (take (length path) full = path)"

definition file_filters ::
  "(string \<Rightarrow> string \<Rightarrow> bool) \<Rightarrow> string \<Rightarrow> config \<Rightarrow> bool \<Rightarrow> string \<Rightarrow> filtered" where
  "file_filters rs path c force0 full =
     (if \<not> include_internal c \<and> starts_with full path then Stop c
      else
        let force = (if \<not> force0 \<and> restrict_filenames c \<noteq> []
                     then find_matching rs (restrict_filenames c) full else force0)
        in if \<not> force0 \<and> restrict_filenames c \<noteq> [] \<and> \<not> force then Stop c
           else if \<not> force then
             (if find_matching rs (include_filenames c) full then Go True
              else if find_matching rs (exclude_filenames c) full then Stop c
              else Go force)
           else Go force)"

text \<open>The file name after the last \<open>/\<close>, or all of it when it has none.\<close>

definition file_of :: "string \<Rightarrow> string" where
  "file_of full =
     (if CHR ''/'' \<in> set full then rev (takeWhile (\<lambda>ch. ch \<noteq> CHR ''/'') (rev full)) else full)"

text \<open>
  Everything \<open>profiler_function\<close> does between setting the guard and the final
  \<open>switch(what)\<close>: it returns early, throws, or reaches the switch with the event kind and
  the interned label. The logging under \<open>verbose\<close> prints only, except that the line
  printed for \<open>verbose > 3\<close> calls \<open>_get_args\<close>. The parameter \<open>arg\<close> is not used.
\<close>

datatype prepared =
    Returned profiler_state
  | Raised profiler_error
  | Collected profiler_state trace_what string

definition prepare ::
  "(string \<Rightarrow> string \<Rightarrow> bool) \<Rightarrow> profiler_state \<Rightarrow> frame option \<Rightarrow> string \<Rightarrow> prepared" where
  "prepare rs st pframe swhat =
     (case pframe of
        None \<Rightarrow> Returned st
      | Some fr \<Rightarrow>
          let path = (case omnitrace_path st of
                        None \<Rightarrow> base_module_path (cfg st) | Some p \<Rightarrow> p);
              st1 = st\<lparr>omnitrace_path := Some path\<rparr>;
              c = cfg st1
          in case what_of swhat of
               None \<Rightarrow> Returned st1
             | Some what \<Rightarrow>
                 if ignore_stack_depth c > 0
                 then Returned (st1\<lparr>cfg := update_ignore_stack_depth what c\<rparr>)
                 else if \<not> trace_c c \<and> (what = PyTrace_C_CALL \<or> what = PyTrace_C_RETURN)
                 then Returned st1
                 else
                   (case function_filters rs c what (co_name fr) of
                      Stop c' \<Rightarrow> Returned (st1\<lparr>cfg := c'\<rparr>)
                    | Go force \<Rightarrow>
                        (case file_filters rs path c force (co_filename fr) of
                           Stop c' \<Rightarrow> Returned (st1\<lparr>cfg := c'\<rparr>)
                         | Go force' \<Rightarrow>
                             (case (if verbose c > 3 then get_args fr else Inr []) of
                                Inl e \<Rightarrow> Raised e
                              | Inr printed \<Rightarrow>
                                  (case get_label c fr (co_name fr)
                                          (file_of (co_filename fr)) (co_filename fr) of
                                     Inl e \<Rightarrow> Raised e
                                   | Inr label \<Rightarrow>
                                       if label = [] then Returned st1
                                       else Collected
                                              (st1\<lparr>labels := insert label (labels st1)\<rparr>)
                                              what label)))))"

text \<open>\<open>_profiler_call\<close> and \<open>_profiler_return\<close>.\<close>

definition profiler_call :: "string \<Rightarrow> profiler_state \<Rightarrow> profiler_state" where
  "profiler_call label st =
     st\<lparr>cfg := (cfg st)\<lparr>records := records (cfg st) @ [label]\<rparr>,
        regions := regions st @ [PushRegion label]\<rparr>"

definition profiler_return :: "profiler_state \<Rightarrow> profiler_error + profiler_state" where
  "profiler_return st =
     (if records (cfg st) = [] then Inl EmptyRecordsBack
      else Inr (st\<lparr>regions := regions st @ [PopRegion (last (records (cfg st)))],
                  cfg := (cfg st)\<lparr>records := butlast (records (cfg st))\<rparr>\<rparr>))"

text \<open>
  \<open>profiler_function\<close>. While the guard is set the function returns at once; otherwise
  it sets the guard, and the scope destructor clears it on every way out.
\<close>

definition profiler_function ::
  "(string \<Rightarrow> string \<Rightarrow> bool) \<Rightarrow> profiler_state \<Rightarrow> frame option \<Rightarrow> string
     \<Rightarrow> profiler_error + profiler_state" where
  "profiler_function rs st pframe swhat =
     (if disable st then Inr st
      else
        case prepare rs (st\<lparr>disable := True\<rparr>) pframe swhat of
          Returned s \<Rightarrow> Inr (s\<lparr>disable := False\<rparr>)
        | Raised e \<Rightarrow> Inl e
        | Collected s what label \<Rightarrow>
            (case what of
               PyTrace_CALL \<Rightarrow> Inr ((profiler_call label s)\<lparr>disable := False\<rparr>)
             | PyTrace_C_CALL \<Rightarrow> Inr ((profiler_call label s)\<lparr>disable := False\<rparr>)
             | PyTrace_RETURN \<Rightarrow>
                 (case profiler_return s of
                    Inl e \<Rightarrow> Inl e | Inr s' \<Rightarrow> Inr (s'\<lparr>disable := False\<rparr>))
             | PyTrace_C_RETURN \<Rightarrow>
                 (case profiler_return s of
                    Inl e \<Rightarrow> Inl e | Inr s' \<Rightarrow> Inr (s'\<lparr>disable := False\<rparr>))))"

text \<open>
  A sequence of interpreter events on one thread, each a frame and an event kind. An
  exception leaves the trace function and ends the run.
\<close>

fun run_events ::
  "(string \<Rightarrow> string \<Rightarrow> bool) \<Rightarrow> profiler_state \<Rightarrow> (frame option \<times> string) list
     \<Rightarrow> profiler_error + profiler_state" where
  "run_events rs st [] = Inr st"
| "run_events rs st ((pframe, swhat) # evs) =
     (case profiler_function rs st pframe swhat of
        Inl e \<Rightarrow> Inl e
      | Inr st' \<Rightarrow> run_events rs st' evs)"

text \<open>
  A matcher for examples: it knows the two expressions used below, \<open>^.*$\<close> (every name)
  and the default \<open>^<.*>$\<close> (a name from \<open><\<close> to \<open>>\<close>), and matches nothing else.
\<close>

definition sample_regex_search :: "string \<Rightarrow> string \<Rightarrow> bool" where
  "sample_regex_search name expr =
     (if expr = ''^.*$'' then True
      else if expr = ''^<.*>$''
      then (2 \<le> length name \<and> hd name = CHR ''<'' \<and> last name = CHR ''>'')
      else False)"

definition thread_start :: "config \<Rightarrow> profiler_state" where
  "thread_start c =
     \<lparr>cfg = c, disable = False, omnitrace_path = None, labels = {}, regions = []\<rparr>"

text \<open>
  The configuration of the boundary case: \<open>exclude_functions\<close> holds \<open>^.*$\<close>, and the
  include and restrict collections are empty.
\<close>

definition excludes_all :: "config \<Rightarrow> bool" where
  "excludes_all c =
     (''^.*$'' \<in> set (exclude_functions c) \<and> include_functions c = [] \<and>
      restrict_functions c = [] \<and> include_filenames c = [] \<and> restrict_filenames c = [])"

text \<open>A user frame and a configuration whose module path is set, for examples.\<close>

definition user_frame :: frame where
  "user_frame = \<lparr>co_name = ''main'', co_filename = ''/home/user/app.py'', f_lineno = 3,
                  argvalues = ArgsText ''()''\<rparr>"

definition user_config :: config where
  "user_config = default_config\<lparr>base_module_path := ''/opt/omnitrace''\<rparr>"

section \<open>The clock reconciler (unnamed/part_000): get_clock_skew\<close>

text \<open>
  The two clocks are outside the program: \<open>comp::wall_clock::record()\<close>, which the code
  stores in \<open>int64_t\<close> variables, and \<open>roctracer_get_timestamp\<close>, which fills a
  \<open>uint64_t\<close>. The model takes each as the sequence of its readings: \<open>cpu k\<close> is what the
  \<open>k\<close>-th call of \<open>_cpu_now\<close> returns, \<open>gpu k\<close> what the \<open>k\<close>-th call of \<open>_gpu_now\<close>
  returns, counted from 0. Values are 64-bit words; \<open>+\<close> and \<open>-\<close> wrap around.
\<close>

type_synonym int64 = "64 word"
type_synonym uint64 = "64 word"

text \<open>Division of two \<open>int64_t\<close> values: the quotient is truncated towards zero.\<close>

definition sdiv64 :: "int64 \<Rightarrow> int64 \<Rightarrow> int64" where
  "sdiv64 a b = word_of_int (sint a sdiv sint b)"

text \<open>
  \<open>_compute\<close>, given the numbers of readings taken so far from each clock: half of a
  host reading, a device reading, half of a second host reading, in this order. It
  returns the difference and the new counts.
\<close>

definition compute ::
  "(nat \<Rightarrow> int64) \<Rightarrow> (nat \<Rightarrow> uint64) \<Rightarrow> nat \<times> nat \<Rightarrow> int64 \<times> (nat \<times> nat)" where
  "compute cpu gpu cnt =
     (case cnt of (i, j) \<Rightarrow>
        let cpu_ts0 = (0 :: uint64);
            gpu_ts0 = (0 :: uint64);
            cpu_ts1 = cpu_ts0 + sdiv64 (cpu i) 2;
            gpu_ts1 = gpu_ts0 + gpu j div 1;
            cpu_ts2 = cpu_ts1 + sdiv64 (cpu (i + 1)) 2
        in (cpu_ts2 - gpu_ts1, (i + 2, j + 1)))"

text \<open>
  The loop \<open>for(int64_t i = 0; i < _n; ++i)\<close>, by the number of iterations left. The
  sums \<open>_cpu_ave\<close> and \<open>_gpu_ave\<close> are only printed and are left out.
\<close>

primrec skew_loop ::
  "(nat \<Rightarrow> int64) \<Rightarrow> (nat \<Rightarrow> uint64) \<Rightarrow> nat \<Rightarrow> nat \<times> nat \<Rightarrow> int64 \<Rightarrow> int64" where
  "skew_loop cpu gpu 0 cnt diff = diff"
| "skew_loop cpu gpu (Suc k) cnt diff =
     (case compute cpu gpu cnt of (d, cnt') \<Rightarrow> skew_loop cpu gpu k cnt' (diff + d))"

text \<open>
  The static \<open>_v\<close>: one reading of each clock to warm up (readings number 0), ten
  iterations, and the division by \<open>_n = 10\<close>.
\<close>

definition clock_skew_value :: "(nat \<Rightarrow> int64) \<Rightarrow> (nat \<Rightarrow> uint64) \<Rightarrow> int64" where
  "clock_skew_value cpu gpu = sdiv64 (skew_loop cpu gpu 10 (1, 1) 0) 10"

text \<open>
  \<open>get_clock_skew\<close>; \<open>use\<close> is the static \<open>_use\<close>, the value of
  \<open>OMNITRACE_USE_ROCTRACER_CLOCK_SKEW\<close> (true when it is not set).
\<close>

definition get_clock_skew :: "bool \<Rightarrow> (nat \<Rightarrow> int64) \<Rightarrow> (nat \<Rightarrow> uint64) \<Rightarrow> int64" where
  "get_clock_skew use cpu gpu = (if use then clock_skew_value cpu gpu else 0)"

text \<open>
  The readings of iteration \<open>i\<close> (from 0): the host readings number \<open>2 i + 1\<close> and
  \<open>2 i + 2\<close>, and the device reading number \<open>i + 1\<close> between them.
\<close>

definition host1 :: "(nat \<Rightarrow> int64) \<Rightarrow> nat \<Rightarrow> int" where
  "host1 cpu i = sint (cpu (2 * i + 1))"

definition host2 :: "(nat \<Rightarrow> int64) \<Rightarrow> nat \<Rightarrow> int" where
  "host2 cpu i = sint (cpu (2 * i + 2))"

definition device_ns :: "(nat \<Rightarrow> uint64) \<Rightarrow> nat \<Rightarrow> int" where
  "device_ns gpu i = uint (gpu (i + 1))"

text \<open>
  The skew in the words of the specification: the average over the ten iterations of the
  average of the two host readings minus the device reading.
\<close>

definition spec_clock_skew :: "(nat \<Rightarrow> int64) \<Rightarrow> (nat \<Rightarrow> uint64) \<Rightarrow> real" where
  "spec_clock_skew cpu gpu =
     (\<Sum>i<10. (real_of_int (host1 cpu i) + real_of_int (host2 cpu i)) / 2
               - real_of_int (device_ns gpu i)) / 10"

text \<open>
  What the code computes, in unbounded integers: each host reading is halved on its own,
  the ten differences are added up, and the sum is divided by ten, every quotient
  truncated towards zero.
\<close>

definition difference_sum :: "(nat \<Rightarrow> int64) \<Rightarrow> (nat \<Rightarrow> uint64) \<Rightarrow> int" where
  "difference_sum cpu gpu =
     (\<Sum>i<10. host1 cpu i sdiv 2 + host2 cpu i sdiv 2 - device_ns gpu i)"

definition truncated_skew :: "(nat \<Rightarrow> int64) \<Rightarrow> (nat \<Rightarrow> uint64) \<Rightarrow> int" where
  "truncated_skew cpu gpu = difference_sum cpu gpu sdiv 10"

text \<open>The values of an \<open>int64_t\<close>.\<close>

definition fits_int64 :: "int \<Rightarrow> bool" where
  "fits_int64 k = (- (2 ^ 63) \<le> k \<and> k < 2 ^ 63)"

section \<open>The lifecycle controller (unnamed/part_000): OnLoad\<close>

text \<open>
  Modelled from the spec: the enumeration \<open>State\<close> behind \<open>get_state()\<close> is declared
  in a header that is not among the sources. The sources compare it with
  \<open>State::Active\<close> by \<open>!=\<close> and \<open><\<close> and set \<open>State::Active\<close> and
  \<open>State::Finalized\<close>; the spec bounds the lifecycle by \<open>OnLoad\<close> and \<open>OnUnload\<close>.
  The model takes four states in the order of a tracer's life.
\<close>

datatype State = PreInit | Init | Active | Finalized

fun state_rank :: "State \<Rightarrow> nat" where
  "state_rank PreInit = 0"
| "state_rank Init = 1"
| "state_rank Active = 2"
| "state_rank Finalized = 3"

text \<open>
  \<open>tim::get_env<bool>(name, default)\<close>: the variable's value, or the default when it is
  not set.
\<close>

definition get_env_bool :: "bool option \<Rightarrow> bool \<Rightarrow> bool" where
  "get_env_bool v dflt = (case v of None \<Rightarrow> dflt | Some b \<Rightarrow> b)"

text \<open>
  What \<open>OnLoad\<close> reads: the variable \<open>OMNITRACE_INIT_TOOLING\<close>,
  \<open>config::settings_are_configured()\<close> and \<open>get_state()\<close>. Its four parameters go to
  \<open>tim::consume_parameters\<close> and into the setup closure only.
\<close>

record load_env =
  init_tooling :: "bool option"
  settings_are_configured :: bool
  tool_state :: State

text \<open>
  What \<open>OnLoad\<close> does is a sequence of calls into other parts of the tracer. The closures
  \<open>_setup\<close> and \<open>_shutdown\<close> are registered under the name \<open>hsa\<close>;
  \<open>comp::roctracer::setup()\<close> runs the registered setup closures.
\<close>

datatype load_action =
    Push_enable_sampling_on_child_threads bool
  | Init_tooling_hidden
  | Get_clock_skew
  | Add_setup string
  | Add_shutdown string
  | Rocm_smi_set_state State
  | Roctracer_setup
  | Pop_enable_sampling_on_child_threads

text \<open>\<open>OnLoad\<close>: the value it returns and the calls it makes, in order.\<close>

definition OnLoad :: "load_env \<Rightarrow> bool \<times> load_action list" where
  "OnLoad e =
     (if \<not> get_env_bool (init_tooling e) True then (True, [])
      else
        (True,
         [Push_enable_sampling_on_child_threads False]
         @ (if \<not> settings_are_configured e \<and> state_rank (tool_state e) < state_rank Active
            then [Init_tooling_hidden] else [])
         @ [Get_clock_skew, Add_setup ''hsa'', Add_shutdown ''hsa'', Rocm_smi_set_state Active,
            Roctracer_setup, Pop_enable_sampling_on_child_threads]))"

section \<open>The roctracer callbacks (unnamed/part_000): shared state\<close>

text \<open>
  What the callbacks hand to the sinks. A perfetto event written by \<open>TRACE_EVENT_BEGIN\<close>
  or \<open>TRACE_EVENT_END\<close> without a track goes to the track of the calling thread, so the
  model records that thread with the event. Annotation values are numbers or strings.
\<close>

datatype arg_value = Num int | Str string

text \<open>
  The narrow integers of the callbacks: the depth of a causal triple and the priority of a
  critical trace entry are \<open>uint16_t\<close>, and the counter of activity records per
  correlation id is an \<open>int\<close>. On words \<open>+\<close> wraps around; \<open>uint\<close> reads a word as an
  unsigned and \<open>sint\<close> as a signed number.
\<close>

type_synonym uint16 = "16 word"
type_synonym int32 = "32 word"

datatype Device = CPU | GPU

datatype Phase = BEGIN | END | DELTA

datatype event =
    TraceEventBegin string string uint64 int "nat option" "(string \<times> arg_value) list"
      \<comment> \<open>category, name, timestamp, calling thread, flow id, annotations\<close>
  | TraceEventEnd string uint64 int
      \<comment> \<open>category, timestamp, calling thread\<close>
  | BundleStart nat string int
      \<comment> \<open>a \<open>roctracer_bundle_t\<close> started: correlation id, name, thread\<close>
  | BundleStop nat int
      \<comment> \<open>the bundle of a correlation id stopped, in the data of a thread\<close>
  | CriticalTrace Device Phase int nat nat nat uint64 uint64 nat string int uint16
      \<comment> \<open>\<open>add_critical_trace\<close>: thread, cid, correlation id, parent cid, begin, end, queue,
          name (hashed), depth (the number the call passes), priority (0 where the call
          passes none)\<close>
  | BundleSample string uint64 uint64
      \<comment> \<open>the bundle of a deferred closure: name, begin and end in nanoseconds\<close>
  | HsaTask string int64 int64
      \<comment> \<open>the task given to the task group by \<open>hsa_api_callback\<close>: name, begin, end\<close>

text \<open>
  The closure \<open>_func\<close> that \<open>hip_activity_callback\<close> queues captures \<open>_name\<close>,
  \<open>_beg_ns\<close> and \<open>_end_ns\<close>. An element of a queue is a \<open>std::function\<close>, which may
  also be empty (\<open>None\<close>).
\<close>

datatype closure = Closure string uint64 uint64

text \<open>
  The trace of a run: the events, and the acquisitions and releases of the mutex of a
  thread's activity queue (\<open>get_hip_activity_mutex(tid)\<close>), in program order. The mutexes
  of the three registry maps guard single insertions and lookups and are not recorded.
\<close>

datatype action = Emit event | Acquire int | Release int

datatype tracer_error =
    MapAtOutOfRange   \<comment> \<open>\<open>unordered_map::at\<close> on a key that is not there\<close>
  | NullQueue         \<comment> \<open>a null activity queue is dereferenced\<close>

text \<open>
  The state the callbacks share: \<open>get_state()\<close>, the run-time switch of the roctracer
  component, the settings that select the sinks, whether the task group has a pool, the
  cached clock skew, the thread-local \<open>begin_timestamp\<close> of \<open>hsa_api_callback\<close>, the
  three registry maps, the running timemory bundles of each thread, the activity queue
  of each thread (\<open>None\<close> for a null pointer), the static \<open>_indexes\<close> of
  \<open>hip_activity_callback\<close>, and the trace so far.
\<close>

record tracer =
  state :: State
  roctracer_enabled :: bool
  use_perfetto :: bool
  use_timemory :: bool
  use_critical_trace :: bool
  use_rocm_smi :: bool
  task_pool :: bool
  clock_skew :: int64
  begin_timestamp :: "int \<Rightarrow> int64"
  key_data :: "nat \<rightharpoonup> string"
  tid_data :: "nat \<rightharpoonup> int"
  cid_data :: "nat \<rightharpoonup> nat \<times> nat \<times> uint16"
  hip_data :: "int \<Rightarrow> (nat \<rightharpoonup> string)"
  activity_callbacks :: "int \<rightharpoonup> closure option list"
  indexes :: "nat \<Rightarrow> int32"
  trace :: "action list"

definition emit :: "event \<Rightarrow> tracer \<Rightarrow> tracer" where
  "emit ev t = t\<lparr>trace := trace t @ [Emit ev]\<rparr>"

definition acquire :: "int \<Rightarrow> tracer \<Rightarrow> tracer" where
  "acquire tid t = t\<lparr>trace := trace t @ [Acquire tid]\<rparr>"

definition release :: "int \<Rightarrow> tracer \<Rightarrow> tracer" where
  "release tid t = t\<lparr>trace := trace t @ [Release tid]\<rparr>"

text \<open>\<open>unordered_map::emplace\<close>: a key that is there keeps its value.\<close>

definition emplace :: "('k \<rightharpoonup> 'v) \<Rightarrow> 'k \<Rightarrow> 'v \<Rightarrow> ('k \<rightharpoonup> 'v)" where
  "emplace m k v = (case m k of None \<Rightarrow> m(k \<mapsto> v) | Some old \<Rightarrow> m)"

section \<open>hip_exec_activity_callbacks\<close>

text \<open>Running one element of the queue: \<open>if(itr) itr();\<close>.\<close>

definition run_closure :: "closure option \<Rightarrow> tracer \<Rightarrow> tracer" where
  "run_closure itr t =
     (case itr of
        None \<Rightarrow> t
      | Some (Closure name beg_ns end_ns) \<Rightarrow> emit (BundleSample name beg_ns end_ns) t)"

text \<open>
  The function takes the lock, returns if the queue pointer is null, runs the elements
  from first to last, and clears the queue. The lock is an \<open>auto_lock_t\<close> local to the
  function: it is released when the function returns.
\<close>

definition hip_exec_activity_callbacks :: "int \<Rightarrow> tracer \<Rightarrow> tracer" where
  "hip_exec_activity_callbacks tid t =
     (let t1 = acquire tid t in
      case activity_callbacks t1 tid of
        None \<Rightarrow> release tid t1
      | Some async_ops \<Rightarrow>
          let t2 = fold run_closure async_ops t1;
              t3 = t2\<lparr>activity_callbacks := (activity_callbacks t2)(tid \<mapsto> [])\<rparr>
          in release tid t3)"

text \<open>The events a queue produces when it is run, first element first.\<close>

fun samples :: "closure option list \<Rightarrow> event list" where
  "samples [] = []"
| "samples (None # q) = samples q"
| "samples (Some (Closure name beg_ns end_ns) # q) = BundleSample name beg_ns end_ns # samples q"

text \<open>
  The events of a trace that are emitted while the mutex of thread \<open>tid\<close> is held;
  \<open>held\<close> says whether it is held at the start.
\<close>

fun emitted_under_lock :: "int \<Rightarrow> bool \<Rightarrow> action list \<Rightarrow> event list" where
  "emitted_under_lock tid held [] = []"
| "emitted_under_lock tid held (Acquire m # rest) = emitted_under_lock tid (held \<or> m = tid) rest"
| "emitted_under_lock tid held (Release m # rest) = emitted_under_lock tid (held \<and> m \<noteq> tid) rest"
| "emitted_under_lock tid held (Emit ev # rest) =
     (if held then ev # emitted_under_lock tid held rest else emitted_under_lock tid held rest)"

section \<open>hsa_api_callback\<close>

datatype api_phase = ACTIVITY_API_PHASE_ENTER | ACTIVITY_API_PHASE_EXIT

text \<open>
  An API id is written by the name of its function: \<open>HSA_API_ID_hsa_init\<close> is
  \<open>hsa_init\<close>. These are the ids of the first group of cases of the switch, which does
  nothing.
\<close>

definition hsa_untraced :: "string list" where
  "hsa_untraced =
     [''hsa_init'', ''hsa_shut_down'', ''hsa_agent_get_exception_policies'', ''hsa_agent_get_info'',
      ''hsa_amd_agent_iterate_memory_pools'', ''hsa_amd_agent_memory_pool_get_info'',
      ''hsa_amd_coherency_get_type'', ''hsa_amd_memory_pool_get_info'', ''hsa_amd_pointer_info'',
      ''hsa_amd_pointer_info_set_userdata'', ''hsa_amd_profiling_async_copy_enable'',
      ''hsa_amd_profiling_get_async_copy_time'', ''hsa_amd_profiling_get_dispatch_time'',
      ''hsa_amd_profiling_set_profiler_enabled'', ''hsa_cache_get_info'',
      ''hsa_code_object_get_info'', ''hsa_code_object_get_symbol'',
      ''hsa_code_object_get_symbol_from_name'', ''hsa_code_object_reader_create_from_memory'',
      ''hsa_code_symbol_get_info'', ''hsa_executable_create_alt'', ''hsa_executable_freeze'',
      ''hsa_executable_get_info'', ''hsa_executable_get_symbol'',
      ''hsa_executable_get_symbol_by_name'', ''hsa_executable_symbol_get_info'',
      ''hsa_extension_get_name'', ''hsa_ext_image_data_get_info'',
      ''hsa_ext_image_data_get_info_with_layout'', ''hsa_ext_image_get_capability'',
      ''hsa_ext_image_get_capability_with_layout'', ''hsa_isa_get_exception_policies'',
      ''hsa_isa_get_info'', ''hsa_isa_get_info_alt'', ''hsa_isa_get_round_method'',
      ''hsa_region_get_info'', ''hsa_system_extension_supported'',
      ''hsa_system_get_extension_table'', ''hsa_system_get_info'',
      ''hsa_system_get_major_extension_table'', ''hsa_wavefront_get_info'']"

text \<open>
  \<open>hsa_api_callback\<close>, as called on thread \<open>thread\<close> for the API \<open>cid\<close> in phase
  \<open>ph\<close>; \<open>now\<close> is what \<open>comp::wall_clock::record()\<close> returns in this call and
  \<open>name\<close> is \<open>roctracer_op_string(domain, cid, 0)\<close>. The comparison of the two
  \<open>int64_t\<close> timestamps is signed.
\<close>

definition hsa_api_callback ::
  "int \<Rightarrow> int64 \<Rightarrow> string \<Rightarrow> string \<Rightarrow> api_phase \<Rightarrow> tracer \<Rightarrow> tracer" where
  "hsa_api_callback thread now name cid ph t =
     (if state t \<noteq> Active \<or> \<not> roctracer_enabled t then t
      else if cid \<in> set hsa_untraced then t
      else if ph = ACTIVITY_API_PHASE_ENTER
      then t\<lparr>begin_timestamp := (begin_timestamp t)(thread := now)\<rparr>
      else
        let beg_ts = begin_timestamp t thread;
            end_ts = (if cid = ''hsa_shut_down'' then beg_ts else now)
        in if sint beg_ts > sint end_ts then t
           else
             let t1 = (if use_perfetto t
                       then emit (TraceEventEnd ''device'' end_ts thread)
                              (emit (TraceEventBegin ''device'' name beg_ts thread None []) t)
                       else t)
             in if use_timemory t1 \<and> task_pool t1 then emit (HsaTask name beg_ts end_ts) t1
                else t1)"

section \<open>hip_api_callback\<close>

text \<open>
  The ids whose calls are dropped before any work, and the ids for which \<open>_queue\<close> is read
  from the arguments; both depend on the HIP version (major, minor) the tracer is compiled
  for.
\<close>

definition hip_untraced :: "nat \<times> nat \<Rightarrow> string list" where
  "hip_untraced v =
     [''__hipPushCallConfiguration'', ''__hipPopCallConfiguration'', ''hipDeviceEnablePeerAccess'']
     @ (if fst v > 4 \<or> (fst v = 4 \<and> snd v \<ge> 3)
        then [''hipImportExternalMemory'', ''hipDestroyExternalMemory''] else [])"

definition hip_queue_apis :: "nat \<times> nat \<Rightarrow> string list" where
  "hip_queue_apis v =
     [''hipLaunchKernel'', ''hipModuleLaunchKernel'', ''hipHccModuleLaunchKernel'',
      ''hipLaunchCooperativeKernel'', ''hipExtLaunchKernel'', ''hipExtModuleLaunchKernel'',
      ''hipExtStreamCreateWithCUMask'', ''hipExtStreamGetCUMask'', ''hipStreamSynchronize'',
      ''hipConfigureCall'', ''hipDrvMemcpy3DAsync'', ''hipEventRecord'', ''hipMemPrefetchAsync'',
      ''hipMemcpy2DAsync'', ''hipMemcpy2DFromArrayAsync'', ''hipMemcpy2DToArrayAsync'',
      ''hipMemcpy3DAsync'', ''hipMemcpyAsync'', ''hipMemcpyDtoDAsync'', ''hipMemcpyDtoHAsync'',
      ''hipMemcpyFromSymbolAsync'', ''hipMemcpyHtoDAsync'', ''hipMemcpyParam2DAsync'',
      ''hipMemcpyPeerAsync'', ''hipMemcpyToSymbolAsync'', ''hipMemcpyWithStream'',
      ''hipMemset2DAsync'', ''hipMemset3DAsync'', ''hipMemsetAsync'', ''hipMemsetD16Async'',
      ''hipMemsetD32Async'', ''hipMemsetD8Async'', ''hipStreamAddCallback'',
      ''hipStreamAttachMemAsync'', ''hipStreamDestroy'', ''hipStreamGetFlags'',
      ''hipStreamGetPriority'', ''hipStreamQuery'', ''hipStreamWaitEvent'',
      ''hipStreamWaitValue32'', ''hipStreamWaitValue64'', ''hipStreamWriteValue32'',
      ''hipStreamWriteValue64'']
     @ (if fst v \<ge> 4 \<and> snd v \<ge> 5
        then [''hipGraphLaunch'', ''hipGraphicsMapResources'', ''hipGraphicsUnmapResources'',
              ''hipSignalExternalSemaphoresAsync'', ''hipStreamBeginCapture'',
              ''hipStreamEndCapture'', ''hipWaitExternalSemaphoresAsync'']
        else [])
     @ (if fst v \<ge> 5
        then [''hipStreamIsCapturing'', ''hipStreamGetCaptureInfo'',
              ''hipStreamGetCaptureInfo_v2'', ''hipStreamUpdateCaptureDependencies'']
        else [])"

text \<open>
  What the callback reads of \<open>callback_data\<close>: the phase, the correlation id, the stream
  argument of the call (as an address), and what the runtime's name helper
  (\<open>hipKernelNameRefByPtr\<close> or \<open>hipKernelNameRef\<close>) returns for the call's function, with
  the second lookup that the cooperative launch makes when the first returns null.
\<close>

record hip_api_data =
  phase :: api_phase
  correlation_id :: nat
  stream :: nat
  kernel_name_ref :: "string option"
  kernel_name_ref_retry :: "string option"

text \<open>
  What the callback gets from outside in one call: the HIP version, the results of
  \<open>roctracer_op_string(domain, cid, 0)\<close> and \<open>hip_api_name(cid)\<close>, the reading of
  \<open>comp::wall_clock::record()\<close>, \<open>threading::get_id()\<close>, the triple that
  \<open>create_cpu_cid_entry()\<close> would return, and \<open>max_supported_threads\<close>.
\<close>

record hip_call =
  hip_version :: "nat \<times> nat"
  op_string :: "string option"
  api_name :: "string option"
  wall_clock :: int64
  thread_id :: int
  cpu_cid_entry :: "nat \<times> nat \<times> uint16"
  max_supported_threads :: nat

text \<open>The switch that finds the kernel name on \<open>ENTER\<close>.\<close>

definition kernel_name :: "string \<Rightarrow> hip_api_data \<Rightarrow> string option" where
  "kernel_name cid d =
     (if cid = ''hipLaunchKernel'' then kernel_name_ref d
      else if cid = ''hipLaunchCooperativeKernel''
      then (case kernel_name_ref d of None \<Rightarrow> kernel_name_ref_retry d | Some n \<Rightarrow> Some n)
      else if cid = ''hipHccModuleLaunchKernel'' then kernel_name_ref d
      else if cid = ''hipModuleLaunchKernel'' then kernel_name_ref d
      else if cid = ''hipExtModuleLaunchKernel'' then kernel_name_ref d
      else if cid = ''hipExtLaunchKernel'' then kernel_name_ref d
      else None)"

text \<open>
  The lambda \<open>_stop\<close> of the \<open>EXIT\<close> phase, and the loop over all thread ids that stops at
  the first success.
\<close>

definition stop_bundle :: "nat \<Rightarrow> int \<Rightarrow> tracer \<Rightarrow> bool \<times> tracer" where
  "stop_bundle corr thr t =
     (case hip_data t thr corr of
        None \<Rightarrow> (False, t)
      | Some b \<Rightarrow>
          (True, emit (BundleStop corr thr)
                   (t\<lparr>hip_data := (hip_data t)(thr := (hip_data t thr)(corr := None))\<rparr>)))"

fun stop_first :: "nat \<Rightarrow> int list \<Rightarrow> tracer \<Rightarrow> tracer" where
  "stop_first corr [] t = t"
| "stop_first corr (i # rest) t =
     (case stop_bundle corr i t of (True, t') \<Rightarrow> t' | (False, t') \<Rightarrow> stop_first corr rest t')"

text \<open>
  In both phases \<open>_depth\<close> is a \<open>uint16_t\<close>, passed on as the number it holds.

  The \<open>ENTER\<close> phase, after the common prologue, block by block: the registration of
  the kernel name and the thread, the perfetto event, the timemory bundle, the critical
  trace entry and the registration of the causal triple. \<open>hip_api_enter\<close> runs them in
  this order and then drains the activity queue of the thread.
\<close>

definition enter_kernel_name :: "hip_call \<Rightarrow> string \<Rightarrow> hip_api_data \<Rightarrow> tracer \<Rightarrow> tracer" where
  "enter_kernel_name e cid d t =
     (case kernel_name cid d of
        None \<Rightarrow> t
      | Some name \<Rightarrow>
          if use_perfetto t \<or> use_timemory t \<or> use_rocm_smi t
          then t\<lparr>key_data := emplace (key_data t) (correlation_id d) name,
                 tid_data := emplace (tid_data t) (correlation_id d) (thread_id e)\<rparr>
          else t)"

definition enter_perfetto :: "hip_call \<Rightarrow> string \<Rightarrow> hip_api_data \<Rightarrow> tracer \<Rightarrow> tracer" where
  "enter_perfetto e op_name d t =
     (case cpu_cid_entry e of (cid', parent_cid, depth) \<Rightarrow>
        if use_perfetto t
        then emit (TraceEventBegin ''host'' op_name (wall_clock e) (thread_id e) (Some cid')
                     [(''pcid'', Num (int parent_cid)), (''cid'', Num (int cid')),
                      (''tid'', Num (thread_id e)), (''depth'', Num (uint depth)),
                      (''corr_id'', Num (int (correlation_id d)))]) t
        else t)"

definition enter_timemory :: "hip_call \<Rightarrow> string \<Rightarrow> hip_api_data \<Rightarrow> tracer \<Rightarrow> tracer" where
  "enter_timemory e op_name d t =
     (let tid = thread_id e; corr = correlation_id d in
      if use_timemory t
      then (case hip_data t tid corr of
              None \<Rightarrow>
                emit (BundleStart corr op_name tid)
                  (t\<lparr>hip_data := (hip_data t)(tid := (hip_data t tid)(corr \<mapsto> op_name))\<rparr>)
            | Some b \<Rightarrow>
                emit (BundleStop corr tid)
                  (t\<lparr>hip_data := (hip_data t)(tid := (hip_data t tid)(corr := None))\<rparr>))
      else t)"

definition enter_critical_trace ::
  "hip_call \<Rightarrow> string \<Rightarrow> nat \<Rightarrow> hip_api_data \<Rightarrow> tracer \<Rightarrow> tracer" where
  "enter_critical_trace e op_name queue d t =
     (case cpu_cid_entry e of (cid', parent_cid, depth) \<Rightarrow>
        if use_critical_trace t \<or> use_rocm_smi t
        then emit (CriticalTrace CPU BEGIN (thread_id e) cid' (correlation_id d) parent_cid
                     (wall_clock e) 0 queue op_name (uint depth) 0) t
        else t)"

definition enter_cid_data :: "hip_call \<Rightarrow> hip_api_data \<Rightarrow> tracer \<Rightarrow> tracer" where
  "enter_cid_data e d t =
     t\<lparr>cid_data := emplace (cid_data t) (correlation_id d) (cpu_cid_entry e)\<rparr>"

definition hip_api_enter ::
  "hip_call \<Rightarrow> string \<Rightarrow> string \<Rightarrow> nat \<Rightarrow> hip_api_data \<Rightarrow> tracer \<Rightarrow> tracer" where
  "hip_api_enter e cid op_name queue d t =
     hip_exec_activity_callbacks (thread_id e)
       (enter_cid_data e d
          (enter_critical_trace e op_name queue d
             (enter_timemory e op_name d
                (enter_perfetto e op_name d
                   (enter_kernel_name e cid d t)))))"

text \<open>
  The \<open>EXIT\<close> phase: the queue is drained first;
  \<open>get_roctracer_cid_data().at(_corr_id)\<close> throws on a missing key; then come the perfetto
  event, the timemory bundle and the critical trace entry.
\<close>

definition exit_perfetto :: "hip_call \<Rightarrow> tracer \<Rightarrow> tracer" where
  "exit_perfetto e t =
     (if use_perfetto t then emit (TraceEventEnd ''host'' (wall_clock e) (thread_id e)) t else t)"

definition exit_timemory :: "hip_call \<Rightarrow> hip_api_data \<Rightarrow> tracer \<Rightarrow> tracer" where
  "exit_timemory e d t =
     (if use_timemory t
      then (case stop_bundle (correlation_id d) (thread_id e) t of
              (True, t') \<Rightarrow> t'
            | (False, t') \<Rightarrow>
                stop_first (correlation_id d) (map int [0 ..< max_supported_threads e]) t')
      else t)"

definition exit_critical_trace ::
  "hip_call \<Rightarrow> string \<Rightarrow> nat \<Rightarrow> hip_api_data \<Rightarrow> nat \<times> nat \<times> uint16 \<Rightarrow> tracer \<Rightarrow> tracer" where
  "exit_critical_trace e op_name queue d triple t =
     (case triple of (cid', parent_cid, depth) \<Rightarrow>
        if use_critical_trace t \<or> use_rocm_smi t
        then emit (CriticalTrace CPU END (thread_id e) cid' (correlation_id d) parent_cid
                     (wall_clock e) (wall_clock e) queue op_name (uint depth) 0) t
        else t)"

definition hip_api_exit ::
  "hip_call \<Rightarrow> string \<Rightarrow> string \<Rightarrow> nat \<Rightarrow> hip_api_data \<Rightarrow> tracer \<Rightarrow> tracer_error + tracer" where
  "hip_api_exit e cid op_name queue d t =
     (let t1 = hip_exec_activity_callbacks (thread_id e) t in
      case cid_data t1 (correlation_id d) of
        None \<Rightarrow> Inl MapAtOutOfRange
      | Some triple \<Rightarrow>
          Inr (exit_critical_trace e op_name queue d triple
                 (exit_timemory e d (exit_perfetto e t1))))"

text \<open>
  \<open>hip_api_callback\<close> for the API \<open>cid\<close>. The name is that of \<open>roctracer_op_string\<close>,
  or of \<open>hip_api_name\<close> when the first is null; without a name the call is dropped.
\<close>

definition hip_api_callback ::
  "hip_call \<Rightarrow> string \<Rightarrow> hip_api_data \<Rightarrow> tracer \<Rightarrow> tracer_error + tracer" where
  "hip_api_callback e cid d t =
     (if state t \<noteq> Active \<or> \<not> roctracer_enabled t then Inr t
      else
        case (case op_string e of None \<Rightarrow> api_name e | Some n \<Rightarrow> Some n) of
          None \<Rightarrow> Inr t
        | Some op_name \<Rightarrow>
            if cid \<in> set (hip_untraced (hip_version e)) then Inr t
            else
              let queue = (if cid \<in> set (hip_queue_apis (hip_version e)) then stream d else 0)
              in case phase d of
                   ACTIVITY_API_PHASE_ENTER \<Rightarrow> Inr (hip_api_enter e cid op_name queue d t)
                 | ACTIVITY_API_PHASE_EXIT \<Rightarrow> hip_api_exit e cid op_name queue d t)"

text \<open>The host events of a trace: the perfetto \<open>BEGIN\<close> and \<open>END\<close> events of category \<open>host\<close>.\<close>

fun host_begins :: "action list \<Rightarrow> event list" where
  "host_begins [] = []"
| "host_begins (Emit (TraceEventBegin cat name ts thr flow args) # rest) =
     (if cat = ''host'' then TraceEventBegin cat name ts thr flow args # host_begins rest
      else host_begins rest)"
| "host_begins (a # rest) = host_begins rest"

fun host_ends :: "action list \<Rightarrow> event list" where
  "host_ends [] = []"
| "host_ends (Emit (TraceEventEnd cat ts thr) # rest) =
     (if cat = ''host'' then TraceEventEnd cat ts thr # host_ends rest else host_ends rest)"
| "host_ends (a # rest) = host_ends rest"

text \<open>
  What the host side of the callback hands to the three sinks. A \<open>BEGIN\<close> is the perfetto
  \<open>BEGIN\<close> event of category \<open>host\<close>, the start of a timemory bundle, or the critical
  trace entry of device \<open>CPU\<close> and phase \<open>BEGIN\<close>; an \<open>END\<close> is the perfetto \<open>END\<close> event of
  category \<open>host\<close>, the stop of a timemory bundle, or the critical trace entry of device
  \<open>CPU\<close> and phase \<open>END\<close>.
\<close>

fun sink_begin :: "event \<Rightarrow> bool" where
  "sink_begin (TraceEventBegin cat name ts thr flow args) = (cat = ''host'')"
| "sink_begin (BundleStart corr name thr) = True"
| "sink_begin (CriticalTrace dev ph thr c corr p b e q name depth prio) = (dev = CPU \<and> ph = BEGIN)"
| "sink_begin ev = False"

fun sink_end :: "event \<Rightarrow> bool" where
  "sink_end (TraceEventEnd cat ts thr) = (cat = ''host'')"
| "sink_end (BundleStop corr thr) = True"
| "sink_end (CriticalTrace dev ph thr c corr p b e q name depth prio) = (dev = CPU \<and> ph = END)"
| "sink_end ev = False"

fun events :: "action list \<Rightarrow> event list" where
  "events [] = []"
| "events (Emit ev # rest) = ev # events rest"
| "events (a # rest) = events rest"

definition begin_events :: "action list \<Rightarrow> event list" where
  "begin_events tr = [ev \<leftarrow> events tr. sink_begin ev]"

definition end_events :: "action list \<Rightarrow> event list" where
  "end_events tr = [ev \<leftarrow> events tr. sink_end ev]"

section \<open>hip_activity_callback\<close>

text \<open>
  The domains named in the source, and the op ids of the HIP ops domain, whose values the
  assertions of \<open>hip_activity_callback\<close> state.
\<close>

datatype activity_domain =
    ACTIVITY_DOMAIN_HSA_API
  | ACTIVITY_DOMAIN_HSA_OPS
  | ACTIVITY_DOMAIN_HIP_OPS
  | ACTIVITY_DOMAIN_HIP_API
  | ACTIVITY_DOMAIN_OTHER nat

definition HIP_OP_ID_DISPATCH :: nat where "HIP_OP_ID_DISPATCH = 0"
definition HIP_OP_ID_COPY :: nat where "HIP_OP_ID_COPY = 1"
definition HIP_OP_ID_BARRIER :: nat where "HIP_OP_ID_BARRIER = 2"

text \<open>The fields of a \<open>roctracer_record_t\<close> that the callback reads.\<close>

record activity_record =
  domain :: activity_domain
  op :: nat
  kind :: nat
  begin_ns :: uint64
  end_ns :: uint64
  record_correlation_id :: nat
  device_id :: int
  queue_id :: nat
  process_id :: nat

text \<open>The static array \<open>_op_id_names\<close>; \<open>at\<close> is in range for an op id up to 2.\<close>

definition op_id_names :: "string list" where
  "op_id_names = [''DISPATCH'', ''COPY'', ''BARRIER'']"

text \<open>
  The blocks of the loop body that write to a sink: the perfetto span (one \<open>BEGIN\<close> and
  two \<open>END\<close> events), the critical trace entry, and the closure appended to the queue of
  thread \<open>tid\<close> under that queue's mutex. \<open>dem\<close> is \<open>tim::demangle\<close>, which the
  static \<open>_kernel_names\<close> memoises.
\<close>

definition activity_perfetto ::
  "(string \<Rightarrow> string) \<Rightarrow> int \<Rightarrow> activity_record \<Rightarrow> string \<Rightarrow> uint64 \<Rightarrow> uint64 \<Rightarrow> nat
     \<Rightarrow> tracer \<Rightarrow> tracer" where
  "activity_perfetto dem thread r name beg_ns end_ns' cid' t =
     (if use_perfetto t
      then emit (TraceEventEnd ''device'' end_ns' thread)
             (emit (TraceEventEnd ''device'' end_ns' thread)
                (emit (TraceEventBegin ''device'' (dem name) beg_ns thread (Some cid')
                         [(''corr_id'', Num (int (record_correlation_id r))),
                          (''device'', Num (device_id r)),
                          (''queue'', Num (int (queue_id r))),
                          (''op'', Str (op_id_names ! op r))]) t))
      else t)"

text \<open>
  In the loop \<open>_depth\<close> is an \<open>int16_t\<close>: it takes the \<open>uint16_t\<close> depth of the causal
  triple, so \<open>sint\<close> reads it, and \<open>_depth + 1\<close> is computed in \<open>int\<close>. The priority is
  \<open>uint16_t _prio = _laps + 1\<close>: the low 16 bits of the \<open>int\<close> sum.
\<close>

definition activity_critical_trace ::
  "activity_record \<Rightarrow> string \<Rightarrow> uint64 \<Rightarrow> uint64 \<Rightarrow> int \<Rightarrow> int32
     \<Rightarrow> (nat \<times> nat \<times> uint16) option \<Rightarrow> tracer \<Rightarrow> tracer" where
  "activity_critical_trace r name beg_ns end_ns' tid laps known t =
     (case known of
        None \<Rightarrow> t
      | Some (cid', parent_cid, depth) \<Rightarrow>
          let prio = (ucast (laps + 1) :: uint16) in
          emit (CriticalTrace GPU DELTA tid cid' (record_correlation_id r) cid' beg_ns end_ns'
                  (queue_id r) name (sint depth + 1) prio) t)"

definition activity_enqueue ::
  "int \<Rightarrow> closure \<Rightarrow> tracer \<Rightarrow> tracer_error + tracer" where
  "activity_enqueue tid func t =
     (let t1 = acquire tid t in
      case activity_callbacks t1 tid of
        None \<Rightarrow> Inl NullQueue
      | Some async_ops \<Rightarrow>
          Inr (release tid
                 (t1\<lparr>activity_callbacks := (activity_callbacks t1)(tid \<mapsto> async_ops @ [Some func])\<rparr>)))"

text \<open>
  The body of the loop for one record, on the thread \<open>thread\<close> that runs the callback.
  \<open>ops\<close> is \<open>roctracer_op_string\<close> (\<open>None\<close> for a null result). \<open>known\<close> is the
  causal triple of the correlation id when a critical trace is wanted and the id is
  registered; \<open>_cid\<close> and \<open>_depth\<close> stay 0 otherwise. \<open>_laps\<close> is the value of the
  counter \<open>_indexes[_corr_id]\<close> before the increment. The assertions are compiled out of
  a release build and are not modelled; the record pointer advances on every path, so the
  loop is a traversal of the records.
\<close>

definition hip_activity_record ::
  "(activity_domain \<Rightarrow> nat \<Rightarrow> nat \<Rightarrow> string option) \<Rightarrow> (string \<Rightarrow> string) \<Rightarrow> int
     \<Rightarrow> activity_record \<Rightarrow> tracer \<Rightarrow> tracer_error + tracer" where
  "hip_activity_record ops dem thread r t =
     (if domain r \<noteq> ACTIVITY_DOMAIN_HIP_OPS then Inr t
      else if op r > HIP_OP_ID_BARRIER then Inr t
      else
        let op_name = ops (domain r) (op r) (kind r);
            beg_ns = begin_ns r + clock_skew t;
            end_ns' = end_ns r + clock_skew t;
            corr = record_correlation_id r;
            laps = indexes t corr;
            t1 = t\<lparr>indexes := (indexes t)(corr := laps + 1)\<rparr>;
            found = (tid_data t corr \<noteq> None);
            tid = (case tid_data t corr of None \<Rightarrow> 0 | Some x \<Rightarrow> x);
            name0 = (if found then key_data t corr else None)
        in case (case name0 of None \<Rightarrow> op_name | Some n \<Rightarrow> Some n) of
             None \<Rightarrow> Inr t1
           | Some name \<Rightarrow>
               let known = (if use_critical_trace t \<or> use_rocm_smi t
                            then cid_data t corr else None);
                   cid' = (case known of None \<Rightarrow> 0 | Some (c, p, dp) \<Rightarrow> c);
                   t3 = activity_critical_trace r name beg_ns end_ns' tid laps known
                          (activity_perfetto dem thread r name beg_ns end_ns' cid' t1)
               in if found \<and> use_timemory t
                  then activity_enqueue tid (Closure name beg_ns end_ns') t3
                  else Inr t3)"

text \<open>The loop over the buffer, and the callback with its guard.\<close>

fun hip_activity_records ::
  "(activity_domain \<Rightarrow> nat \<Rightarrow> nat \<Rightarrow> string option) \<Rightarrow> (string \<Rightarrow> string) \<Rightarrow> int
     \<Rightarrow> activity_record list \<Rightarrow> tracer \<Rightarrow> tracer_error + tracer" where
  "hip_activity_records ops dem thread [] t = Inr t"
| "hip_activity_records ops dem thread (r # rest) t =
     (case hip_activity_record ops dem thread r t of
        Inl err \<Rightarrow> Inl err
      | Inr t' \<Rightarrow> hip_activity_records ops dem thread rest t')"

definition hip_activity_callback ::
  "(activity_domain \<Rightarrow> nat \<Rightarrow> nat \<Rightarrow> string option) \<Rightarrow> (string \<Rightarrow> string) \<Rightarrow> int
     \<Rightarrow> activity_record list \<Rightarrow> tracer \<Rightarrow> tracer_error + tracer" where
  "hip_activity_callback ops dem thread buffer t =
     (if state t \<noteq> Active \<or> \<not> roctracer_enabled t then Inr t
      else hip_activity_records ops dem thread buffer t)"

text \<open>A tracer that is active, with empty maps and queues, for examples.\<close>

definition active_tracer :: "bool \<Rightarrow> bool \<Rightarrow> bool \<Rightarrow> tracer" where
  "active_tracer perfetto timemory critical =
     \<lparr>state = Active, roctracer_enabled = True, use_perfetto = perfetto,
      use_timemory = timemory, use_critical_trace = critical, use_rocm_smi = False,
      task_pool = True, clock_skew = 0, begin_timestamp = (\<lambda>thr. 0),
      key_data = Map.empty, tid_data = Map.empty, cid_data = Map.empty,
      hip_data = (\<lambda>thr. Map.empty), activity_callbacks = (\<lambda>thr. Some []),
      indexes = (\<lambda>corr. 0), trace = []\<rparr>"

text \<open>
  A call of \<open>hipMemcpyAsync\<close> with correlation id 7 on thread 1, for examples: the name
  helper of roctracer knows the API, the stream is at address 16, and the call is no
  kernel launch.
\<close>

definition memcpy_call :: "int64 \<Rightarrow> hip_call" where
  "memcpy_call now =
     \<lparr>hip_version = (5, 2), op_string = Some ''hipMemcpyAsync'', api_name = Some ''hipMemcpyAsync'',
      wall_clock = now, thread_id = 1, cpu_cid_entry = (3, 2, 1), max_supported_threads = 4\<rparr>"

definition memcpy_data :: "api_phase \<Rightarrow> hip_api_data" where
  "memcpy_data ph =
     \<lparr>phase = ph, correlation_id = 7, stream = 16, kernel_name_ref = None,
      kernel_name_ref_retry = None\<rparr>"

text \<open>
  An activity record of a copy with a correlation id, and an op-string helper that names
  the three ops of the HIP ops domain as the spec does.
\<close>

definition copy_record :: "nat \<Rightarrow> activity_record" where
  "copy_record corr =
     \<lparr>domain = ACTIVITY_DOMAIN_HIP_OPS, op = HIP_OP_ID_COPY, kind = 0, begin_ns = 1000,
      end_ns = 2000, record_correlation_id = corr, device_id = 0, queue_id = 0, process_id = 1\<rparr>"

definition dispatch_record :: "nat \<Rightarrow> activity_record" where
  "dispatch_record corr =
     \<lparr>domain = ACTIVITY_DOMAIN_HIP_OPS, op = HIP_OP_ID_DISPATCH, kind = 0, begin_ns = 1000,
      end_ns = 2000, record_correlation_id = corr, device_id = 0, queue_id = 0, process_id = 1\<rparr>"

definition generic_op_string :: "activity_domain \<Rightarrow> nat \<Rightarrow> nat \<Rightarrow> string option" where
  "generic_op_string dmn opid knd =
     (if dmn = ACTIVITY_DOMAIN_HIP_OPS \<and> opid \<le> HIP_OP_ID_BARRIER
      then Some (op_id_names ! opid) else None)"

text \<open>
  What the statements about host events depend on: the guard of the callbacks, the
  perfetto switch, and the host events of the trace.
\<close>

definition host_view :: "tracer \<Rightarrow> State \<times> bool \<times> bool \<times> event list \<times> event list" where
  "host_view t =
     (state t, roctracer_enabled t, use_perfetto t, host_begins (trace t), host_ends (trace t))"

text \<open>
  What the loop of \<open>hip_activity_callback\<close> reads of the registry and of the settings.
\<close>

definition registry_view ::
  "tracer \<Rightarrow> (nat \<rightharpoonup> int) \<times> (nat \<rightharpoonup> string) \<times> (nat \<rightharpoonup> nat \<times> nat \<times> uint16)
     \<times> bool \<times> bool \<times> bool \<times> bool \<times> int64" where
  "registry_view t =
     (tid_data t, key_data t, cid_data t, use_perfetto t, use_timemory t, use_critical_trace t,
      use_rocm_smi t, clock_skew t)"

text \<open>
  What the statements about the three sinks depend on: the guard of the callbacks, the
  switches of the sinks, the running bundles, the registered causal triples, and the
  \<open>BEGIN\<close> and \<open>END\<close> of the trace.
\<close>

definition sink_view ::
  "tracer \<Rightarrow> State \<times> bool \<times> bool \<times> bool \<times> bool \<times> (int \<Rightarrow> (nat \<rightharpoonup> string))
     \<times> (nat \<rightharpoonup> nat \<times> nat \<times> uint16) \<times> event list \<times> event list" where
  "sink_view t =
     (state t, roctracer_enabled t, use_perfetto t, use_timemory t,
      use_critical_trace t \<or> use_rocm_smi t, hip_data t, cid_data t,
      begin_events (trace t), end_events (trace t))"

text \<open>The value of \<open>_queue\<close> in a call: the stream argument, for the APIs that have one.\<close>

definition call_queue :: "hip_call \<Rightarrow> string \<Rightarrow> hip_api_data \<Rightarrow> nat" where
  "call_queue e cid d = (if cid \<in> set (hip_queue_apis (hip_version e)) then stream d else 0)"

text \<open>
  A tracer with all three sinks enabled after two host calls: a kernel launch of \<open>foo\<close>
  with correlation id 42 on thread 1, which registered the kernel name, the thread and the
  causal triple, and a copy with correlation id 999, which registered the causal triple
  only.
\<close>

definition registry_tracer :: tracer where
  "registry_tracer =
     (active_tracer True True True)
       \<lparr>key_data := [42 \<mapsto> ''foo''], tid_data := [42 \<mapsto> 1],
        cid_data := [42 \<mapsto> (5, 4, 1), 999 \<mapsto> (3, 2, 1)]\<rparr>"

section \<open>Properties of initialize\<close>

lemma argv_loop_all_str:
  "all_str v \<Longrightarrow> \<exists>cmd. argv_loop v (c, l) = Inr (cmd, l @ concat (map (\<lambda>s. '' '' @ s) (strs_of v)))"
proof (induction v arbitrary: c l rule: all_str.induct)
  case 1
  then show ?case by simp
next
  case (2 s rest)
  then have r: "all_str rest" by simp
  show ?case
    using "2.IH" [OF r, of "if c = [] then s else c" "l @ '' '' @ s"]
    by (simp add: cast_string_def)
next
  case (3 rest)
  then show ?case by simp
qed

lemma find_first_not_of_None: "find_first_not_of s c = None \<longleftrightarrow> (\<forall>x \<in> set s. x = c)"
  by (induction s) auto

lemma find_first_not_of_le: "find_first_not_of s c = Some p \<Longrightarrow> p < length s"
  by (induction s arbitrary: p) (auto split: if_splits)

lemma some_non_space_concat:
  "all_str v \<Longrightarrow> some_non_space v \<Longrightarrow>
   list_ex (\<lambda>c. c \<noteq> CHR '' '') (concat (map (\<lambda>s. '' '' @ s) (strs_of v)))"
proof (induction v rule: all_str.induct)
  case 1
  then show ?case by simp
next
  case (2 s rest)
  then show ?case by (cases "list_ex (\<lambda>c. c \<noteq> CHR '' '') s") simp_all
next
  case (3 rest)
  then show ?case by simp
qed

lemma initialize_when_initialized:
  "is_initialized st \<Longrightarrow> initialize imp a st = (Some already_initialized, st)"
  by (simp add: initialize_def initialize_str_def initialize_list_def split: init_arg.splits)

lemma initialize_sets_flag: "is_initialized (snd (initialize imp a st))"
  by (auto simp: initialize_def initialize_str_def initialize_list_def Let_def
      split: init_arg.splits sum.splits prod.splits)

lemma initialize_list_plain:
  assumes "\<not> is_initialized st" "imp \<noteq> RaisesOther" "all_str v" "v = [] \<or> some_non_space v"
  shows "fst (initialize_list imp v st) = None"
proof -
  obtain u where u: "get_use_mpi imp = Inr u"
    using assms(2) by (cases imp) (auto simp: get_use_mpi_def)
  obtain cmd where l: "argv_loop v ([], []) = Inr (cmd, concat (map (\<lambda>s. '' '' @ s) (strs_of v)))"
    using argv_loop_all_str [OF assms(3), of "[]" "[]"] by auto
  show ?thesis
  proof (cases "concat (map (\<lambda>s. '' '' @ s) (strs_of v)) = []")
    case True
    then show ?thesis using assms(1) u l by (simp add: initialize_list_def Let_def)
  next
    case False
    then have "v \<noteq> []" by auto
    then have "some_non_space v" using assms(4) by simp
    then have "\<not> (\<forall>x \<in> set (concat (map (\<lambda>s. '' '' @ s) (strs_of v))). x = CHR '' '')"
      using some_non_space_concat [OF assms(3)] unfolding list_ex_iff by blast
    then have "find_first_not_of (concat (map (\<lambda>s. '' '' @ s) (strs_of v))) CHR '' '' \<noteq> None"
      by (simp only: find_first_not_of_None not_False_eq_True)
    then obtain p where p: "find_first_not_of (concat (map (\<lambda>s. '' '' @ s) (strs_of v))) CHR '' '' = Some p"
      by (cases "find_first_not_of (concat (map (\<lambda>s. '' '' @ s) (strs_of v))) CHR '' ''") simp_all
    then have "p < length (concat (map (\<lambda>s. '' '' @ s) (strs_of v)))"
      by (rule find_first_not_of_le)
    then show ?thesis using assms(1) u l p False
      by (simp add: initialize_list_def Let_def substr_def)
  qed
qed

lemma join_spaces_concat:
  "ss \<noteq> [] \<Longrightarrow> concat (map (\<lambda>s. '' '' @ s) ss) = '' '' @ join_spaces ss"
  by (induction ss rule: join_spaces.induct) auto


text \<open>
  C6. Two consecutive calls of \<open>initialize\<close>, each with a string or a list: when the first
  returns normally, the second raises "already initialized" and changes nothing, so the
  \<open>omnitrace_init\<close> call of the first remains the session. On a module that is not
  initialized, \<open>initialize\<close> returns normally when the import of \<open>mpi4py\<close> succeeds or
  raises \<open>ImportError\<close>, every element of a list argument is a \<open>str\<close>, and the list
  is empty or has a character that is not a space.
\<close>

theorem initialize_twice_raises:
  "(fst (initialize imp1 a1 st) = None \<longrightarrow>
      initialize imp2 a2 (snd (initialize imp1 a1 st)) =
        (Some already_initialized, snd (initialize imp1 a1 st)))
   \<and> (\<not> is_initialized st \<and> imp1 \<noteq> RaisesOther \<and> plain_arg a1 \<longrightarrow>
        fst (initialize imp1 a1 st) = None)"
proof (intro conjI impI)
  show "initialize imp2 a2 (snd (initialize imp1 a1 st)) =
        (Some already_initialized, snd (initialize imp1 a1 st))"
    by (rule initialize_when_initialized) (rule initialize_sets_flag)
next
  assume h: "\<not> is_initialized st \<and> imp1 \<noteq> RaisesOther \<and> plain_arg a1"
  show "fst (initialize imp1 a1 st) = None"
  proof (cases a1)
    case (ArgStr s)
    then show ?thesis using h
      by (cases imp1) (simp_all add: initialize_def initialize_str_def get_use_mpi_def)
  next
    case (ArgList v)
    then show ?thesis using h initialize_list_plain [of st imp1 v]
      by (simp add: initialize_def plain_arg_def)
  qed
qed

theorem initialize_twice_raises_witness:
  "fst (initialize Imported (ArgList [PyStr ''python3'', PyStr ''app.py'']) (module_loaded Map.empty)) = None
   \<and> initialize RaisesImportError (ArgStr ''other'')
        (snd (initialize Imported (ArgList [PyStr ''python3'', PyStr ''app.py'']) (module_loaded Map.empty))) =
      (Some already_initialized,
       snd (initialize Imported (ArgList [PyStr ''python3'', PyStr ''app.py'']) (module_loaded Map.empty)))
   \<and> init_calls (snd (initialize Imported (ArgList [PyStr ''python3'', PyStr ''app.py'']) (module_loaded Map.empty)))
       = [(''trace'', False, ''python3'')]"
proof -
  have a: "\<not> is_initialized (module_loaded Map.empty) \<and> Imported \<noteq> RaisesOther
       \<and> plain_arg (ArgList [PyStr ''python3'', PyStr ''app.py''])"
    by (simp add: module_loaded_def plain_arg_def)
  have b: "init_calls (snd (initialize Imported (ArgList [PyStr ''python3'', PyStr ''app.py'']) (module_loaded Map.empty)))
       = [(''trace'', False, ''python3'')]"
    by (simp add: initialize_def initialize_list_def module_loaded_def get_use_mpi_def
        cast_string_def substr_def set_env_def)
  note t = initialize_twice_raises [of Imported "ArgList [PyStr ''python3'', PyStr ''app.py'']"
        "module_loaded Map.empty" RaisesImportError "ArgStr ''other''"]
  have c: "fst (initialize Imported (ArgList [PyStr ''python3'', PyStr ''app.py'']) (module_loaded Map.empty)) = None"
    by (rule mp [OF conjunct2 [OF t] a])
  have d: "initialize RaisesImportError (ArgStr ''other'')
        (snd (initialize Imported (ArgList [PyStr ''python3'', PyStr ''app.py'']) (module_loaded Map.empty))) =
      (Some already_initialized,
       snd (initialize Imported (ArgList [PyStr ''python3'', PyStr ''app.py'']) (module_loaded Map.empty)))"
    by (rule mp [OF conjunct1 [OF t] c])
  show ?thesis
    by (intro conjI c d b)
qed


text \<open>
  C6 as stated fails: on a module that is not initialized, \<open>initialize\<close> raises when the
  import of \<open>mpi4py\<close> raises anything but \<open>ImportError\<close> (the source rethrows it),
  and the list overload raises on an element that is no \<open>str\<close>.
\<close>

theorem initialize_raises_counterexample:
  "\<not> is_initialized (module_loaded Map.empty)
   \<and> fst (initialize RaisesOther (ArgStr ''python3'') (module_loaded Map.empty)) = Some ErrorAlreadySet
   \<and> fst (initialize Imported (ArgList [PyOther]) (module_loaded Map.empty)) = Some CastError"
  by (simp add: initialize_def initialize_str_def initialize_list_def module_loaded_def
      get_use_mpi_def cast_string_def)


lemma initialize_list_stores:
  assumes "\<not> is_initialized st" "imp \<noteq> RaisesOther" "all_str v" "some_non_space v"
    and "environ st ''OMNITRACE_COMMAND_LINE'' = None"
  shows "environ (snd (initialize_list imp v st)) ''OMNITRACE_COMMAND_LINE''
           = Some ('' '' @ join_spaces (strs_of v))"
proof -
  let ?l = "concat (map (\<lambda>s. '' '' @ s) (strs_of v))"
  obtain u where u: "get_use_mpi imp = Inr u"
    using assms(2) by (cases imp) (auto simp: get_use_mpi_def)
  obtain cmd where l: "argv_loop v ([], []) = Inr (cmd, ?l)"
    using argv_loop_all_str [OF assms(3), of "[]" "[]"] by auto
  have n: "strs_of v \<noteq> []"
    using assms(3,4) by (cases v rule: all_str.cases) simp_all
  then have j: "?l = '' '' @ join_spaces (strs_of v)" by (rule join_spaces_concat)
  have "\<not> (\<forall>x \<in> set ?l. x = CHR '' '')"
    using some_non_space_concat [OF assms(3,4)] unfolding list_ex_iff by blast
  then have "find_first_not_of ?l CHR '' '' \<noteq> None"
    by (simp only: find_first_not_of_None not_False_eq_True)
  then obtain p where p: "find_first_not_of ?l CHR '' '' = Some p"
    by (cases "find_first_not_of ?l CHR '' ''") simp_all
  then have b: "p < length ?l" by (rule find_first_not_of_le)
  have "?l \<noteq> []" using j by simp
  then have "environ (snd (initialize_list imp v st)) ''OMNITRACE_COMMAND_LINE'' = Some ?l"
    using assms(1,5) u l p b by (simp add: initialize_list_def Let_def substr_def set_env_def)
  then show ?thesis using j by simp
qed

text \<open>
  C9. The value stored for \<open>initialize(["python3", "app.py"])\<close> when the variable is not set
  before: the elements, each preceded by a space. The elements separated by single spaces
  are \<open>python3 app.py\<close>; the stored value has one more space in front, because the
  result of \<open>substr\<close> is dropped. The lemma above shows the same for every list of
  strings that the call accepts.
\<close>

theorem initialize_command_line_leading_space:
  "environ (snd (initialize (RaisesImportError) (ArgList [PyStr ''python3'', PyStr ''app.py''])
      (module_loaded Map.empty))) ''OMNITRACE_COMMAND_LINE'' = Some '' python3 app.py''
   \<and> join_spaces [''python3'', ''app.py''] = ''python3 app.py''"
  by (simp add: initialize_def initialize_list_def module_loaded_def get_use_mpi_def
      cast_string_def substr_def set_env_def)

section \<open>Properties of profiler_function\<close>

lemma find_matching_member: "rs name expr \<Longrightarrow> expr \<in> set exprs \<Longrightarrow> find_matching rs exprs name"
  unfolding find_matching_def list_ex_iff by blast

lemma find_matching_Nil: "find_matching rs [] name = False"
  by (simp add: find_matching_def)

lemma excludes_all_update:
  "excludes_all (update_ignore_stack_depth what c) = excludes_all c"
  by (cases what) (simp_all add: update_ignore_stack_depth_def excludes_all_def)

lemma function_filters_excluded:
  assumes "\<forall>name. rs name ''^.*$''" and "excludes_all c"
  shows "\<exists>c'. function_filters rs c what func = Stop c' \<and> excludes_all c'"
proof -
  have m: "find_matching rs (exclude_functions c) func"
    using assms by (intro find_matching_member [of rs func "''^.*$''"]) (simp_all add: excludes_all_def)
  have e: "restrict_functions c = []" "include_functions c = []"
    using assms(2) by (simp_all add: excludes_all_def)
  show ?thesis
    using m e assms(2)
    by (simp add: function_filters_def find_matching_Nil excludes_all_update)
qed

lemma profiler_function_excluded:
  assumes "\<forall>name. rs name ''^.*$''" and "excludes_all (cfg st)"
  shows "\<exists>st'. profiler_function rs st pframe swhat = Inr st' \<and> regions st' = regions st
           \<and> excludes_all (cfg st')"
proof (cases "disable st")
  case True
  then show ?thesis using assms(2) by (simp add: profiler_function_def)
next
  case False
  have "\<exists>s. prepare rs (st\<lparr>disable := True\<rparr>) pframe swhat = Returned s \<and> regions s = regions st
          \<and> excludes_all (cfg s)"
  proof (cases pframe)
    case None
    then show ?thesis using assms(2) by (simp add: prepare_def)
  next
    case (Some fr)
    show ?thesis
    proof (cases "what_of swhat")
      case None
      then show ?thesis using Some assms(2) by (simp add: prepare_def)
    next
      case (Some what)
      obtain c' where c': "function_filters rs (cfg st) what (co_name fr) = Stop c'" "excludes_all c'"
        using function_filters_excluded [of rs "cfg st" what "co_name fr"] assms by blast
      show ?thesis
        using Some \<open>pframe = Some fr\<close> c' assms(2)
        by (simp add: prepare_def Let_def excludes_all_update)
    qed
  qed
  then show ?thesis using False by (auto simp: profiler_function_def)
qed

text \<open>
  C8. With \<open>^.*$\<close> in \<open>exclude_functions\<close> and the include and restrict collections
  empty, every sequence of interpreter events is processed without an exception and
  without a call of \<open>omnitrace_push_region\<close> or \<open>omnitrace_pop_region\<close>: the region
  events after the run are those before it. The matcher is assumed to match \<open>^.*$\<close>
  against every name.
\<close>

theorem exclude_all_no_region_events:
  assumes "\<forall>name. rs name ''^.*$''" and "excludes_all (cfg st)"
  shows "\<exists>st'. run_events rs st evs = Inr st' \<and> regions st' = regions st"
  using assms(2)
proof (induction evs arbitrary: st)
  case Nil
  then show ?case by simp
next
  case (Cons ev evs)
  obtain pframe swhat where ev: "ev = (pframe, swhat)" by (cases ev)
  obtain s1 where s1: "profiler_function rs st pframe swhat = Inr s1" "regions s1 = regions st"
    "excludes_all (cfg s1)"
    using profiler_function_excluded [of rs st pframe swhat] assms(1) Cons.prems by blast
  obtain s2 where "run_events rs s1 evs = Inr s2" "regions s2 = regions s1"
    using Cons.IH [OF s1(3)] by blast
  then show ?case using ev s1 by simp
qed

theorem exclude_all_no_region_events_witness:
  "(\<forall>name. sample_regex_search name ''^.*$'')
   \<and> excludes_all (user_config\<lparr>exclude_functions := [''^<.*>$'', ''^.*$'']\<rparr>)
   \<and> (\<exists>st'. run_events sample_regex_search
          (thread_start (user_config\<lparr>exclude_functions := [''^<.*>$'', ''^.*$'']\<rparr>))
          [(Some user_frame, ''call''), (Some user_frame, ''return'')] = Inr st'
        \<and> regions st' = [])"
proof -
  have a: "\<forall>name. sample_regex_search name ''^.*$''"
    by (simp add: sample_regex_search_def)
  have b: "excludes_all (cfg (thread_start (user_config\<lparr>exclude_functions := [''^<.*>$'', ''^.*$'']\<rparr>)))"
    by (simp add: excludes_all_def user_config_def default_config_def thread_start_def)
  have c: "excludes_all (user_config\<lparr>exclude_functions := [''^<.*>$'', ''^.*$'']\<rparr>)"
    using b by (simp add: thread_start_def)
  have r: "regions (thread_start (user_config\<lparr>exclude_functions := [''^<.*>$'', ''^.*$'']\<rparr>)) = []"
    by (simp add: thread_start_def)
  have d: "\<exists>st'. run_events sample_regex_search
          (thread_start (user_config\<lparr>exclude_functions := [''^<.*>$'', ''^.*$'']\<rparr>))
          [(Some user_frame, ''call''), (Some user_frame, ''return'')] = Inr st'
        \<and> regions st' = []"
    using exclude_all_no_region_events [of sample_regex_search
        "thread_start (user_config\<lparr>exclude_functions := [''^<.*>$'', ''^.*$'']\<rparr>)"
        "[(Some user_frame, ''call''), (Some user_frame, ''return'')]", OF a b]
    unfolding r .
  show ?thesis
    by (intro conjI a c d)
qed

lemma prepare_Collected:
  "prepare rs st0 pframe swhat = Collected s what label \<Longrightarrow>
     cfg s = cfg st0 \<and> regions s = regions st0"
  by (auto simp: prepare_def Let_def
      split: option.splits if_splits filtered.splits sum.splits)

text \<open>
  C10. When an event gets through every filter and reaches the final switch as a
  \<open>RETURN\<close> or \<open>C_RETURN\<close>, \<open>records.back()\<close> is evaluated with no check: on an empty
  \<open>records\<close> the call ends in undefined behaviour, and on a non-empty one it runs the
  last closure (a pop of the label it captured) and removes it.
\<close>

theorem return_pops_records_unguarded:
  assumes "\<not> disable st"
      and "prepare rs (st\<lparr>disable := True\<rparr>) pframe swhat = Collected s what label"
      and "what = PyTrace_RETURN \<or> what = PyTrace_C_RETURN"
  shows "(records (cfg st) = [] \<longrightarrow>
            profiler_function rs st pframe swhat = Inl EmptyRecordsBack)
       \<and> (records (cfg st) \<noteq> [] \<longrightarrow>
            (\<exists>s'. profiler_function rs st pframe swhat = Inr s'
               \<and> regions s' = regions st @ [PopRegion (last (records (cfg st)))]
               \<and> records (cfg s') = butlast (records (cfg st))))"
proof -
  have k: "cfg s = cfg st" "regions s = regions st"
    using prepare_Collected [OF assms(2)] by simp_all
  show ?thesis
    using assms k by (auto simp: profiler_function_def profiler_return_def)
qed

lemma prepare_user_return:
  "prepare sample_regex_search ((thread_start user_config)\<lparr>disable := True\<rparr>)
     (Some user_frame) ''return'' =
   Collected ((thread_start user_config)\<lparr>disable := True, omnitrace_path := Some ''/opt/omnitrace'',
                labels := {''main''}\<rparr>) PyTrace_RETURN ''main''"
  by (simp add: prepare_def thread_start_def user_config_def default_config_def user_frame_def
      what_of_def function_filters_def file_filters_def find_matching_def
      default_exclude_functions_def default_exclude_filenames_def sample_regex_search_def
      starts_with_def get_label_def file_of_def Let_def)

theorem return_pops_records_unguarded_witness:
  "\<not> disable (thread_start user_config)
   \<and> records (cfg (thread_start user_config)) = []
   \<and> profiler_function sample_regex_search (thread_start user_config) (Some user_frame) ''return''
       = Inl EmptyRecordsBack"
proof -
  have a: "\<not> disable (thread_start user_config)" by (simp add: thread_start_def)
  have b: "records (cfg (thread_start user_config)) = []"
    by (simp add: thread_start_def user_config_def default_config_def)
  have c: "PyTrace_RETURN = PyTrace_RETURN \<or> PyTrace_RETURN = PyTrace_C_RETURN" by simp
  note t = return_pops_records_unguarded [OF a prepare_user_return c]
  show ?thesis
    by (intro conjI a b mp [OF conjunct1 [OF t] b])
qed

section \<open>Properties of get_clock_skew\<close>

lemma sdiv_nonneg: "0 \<le> (a::int) \<Longrightarrow> 0 < b \<Longrightarrow> a sdiv b = a div b"
  by (cases "a = 0") (simp_all add: signed_divide_int_def)

lemma sint_small: "- (2 ^ 63) \<le> k \<Longrightarrow> k < 2 ^ 63 \<Longrightarrow> sint (word_of_int k :: 64 word) = k"
  by (simp add: sint_sbintrunc' signed_take_bit_int_eq_self)

lemma skew_loop_sum:
  "skew_loop cpu gpu k (i, j) diff =
     diff + word_of_int (\<Sum>m<k. sint (cpu (i + 2 * m)) sdiv 2 + sint (cpu (i + 2 * m + 1)) sdiv 2
                                  - uint (gpu (j + m)))"
proof (induction k arbitrary: i j diff)
  case 0
  then show ?case by simp
next
  case (Suc k)
  have c: "compute cpu gpu (i, j) =
           (word_of_int (sint (cpu i) sdiv 2 + sint (cpu (i + 1)) sdiv 2 - uint (gpu j)),
            (i + 2, j + 1))"
    by (simp add: compute_def sdiv64_def Let_def)
  show ?case
    unfolding skew_loop.simps c prod.case Suc.IH sum.lessThan_Suc_shift
    by (simp add: algebra_simps)
qed

lemma skew_sum_eq:
  "clock_skew_value cpu gpu =
     sdiv64 (word_of_int (difference_sum cpu gpu)) 10"
proof -
  have "(\<Sum>m<10. sint (cpu (1 + 2 * m)) sdiv 2 + sint (cpu (1 + 2 * m + 1)) sdiv 2
                     - uint (gpu (1 + m)))
        = difference_sum cpu gpu"
    unfolding difference_sum_def
    by (rule sum.cong) (simp_all add: host1_def host2_def device_ns_def add.commute)
  then show ?thesis
    by (simp add: clock_skew_value_def skew_loop_sum)
qed

lemma sdiv_between: "min 0 a \<le> (a::int) sdiv 10 \<and> a sdiv 10 \<le> max 0 a"
proof (cases "0 \<le> a")
  case True
  then have "a sdiv 10 = a div 10" by (simp add: sdiv_nonneg)
  moreover have "0 \<le> a div 10 \<and> a div 10 \<le> a" using True by linarith
  ultimately show ?thesis using True by simp
next
  case False
  then have n: "0 \<le> - a" by simp
  have "a sdiv 10 = - ((- a) div 10)"
    using False by (simp add: signed_divide_int_def)
  moreover have "0 \<le> (- a) div 10 \<and> (- a) div 10 \<le> - a" using n by linarith
  ultimately show ?thesis using False by simp
qed

lemma clock_skew_truncated:
  assumes "fits_int64 (difference_sum cpu gpu)"
  shows "sint (clock_skew_value cpu gpu) = truncated_skew cpu gpu"
proof -
  let ?S = "difference_sum cpu gpu"
  have b: "- (2 ^ 63) \<le> ?S" "?S < 2 ^ 63"
    using assms by (simp_all add: fits_int64_def)
  then have s: "sint (word_of_int ?S :: 64 word) = ?S"
    by (rule sint_small)
  have "- (2 ^ 63) \<le> ?S sdiv 10" "?S sdiv 10 < 2 ^ 63"
    using b sdiv_between [of ?S] by linarith+
  then have r: "sint (word_of_int (?S sdiv 10) :: 64 word) = ?S sdiv 10"
    by (rule sint_small)
  have t: "sint (10 :: 64 word) = 10" by simp
  show ?thesis
    unfolding skew_sum_eq sdiv64_def s t truncated_skew_def by (rule r)
qed

lemma half_div: "0 \<le> (n::int) \<Longrightarrow>
    0 \<le> real_of_int n / 2 - real_of_int (n div 2) \<and> real_of_int n / 2 - real_of_int (n div 2) \<le> 1 / 2"
proof -
  assume "0 \<le> n"
  have lin2: "\<And>A x r :: real. A = 2 * x + r \<Longrightarrow> 0 \<le> r \<Longrightarrow> r \<le> 1
      \<Longrightarrow> 0 \<le> A / 2 - x \<and> A / 2 - x \<le> 1 / 2"
    by (simp add: field_simps)
  have "n = 2 * (n div 2) + n mod 2" by simp
  then have e: "real_of_int n = 2 * real_of_int (n div 2) + real_of_int (n mod 2)"
    by (metis of_int_add of_int_mult of_int_numeral)
  have "0 \<le> n mod 2 \<and> n mod 2 \<le> 1" by presburger
  then have "0 \<le> real_of_int (n mod 2)" "real_of_int (n mod 2) \<le> 1" by simp_all
  then show ?thesis
    using lin2 [OF e] by simp
qed

lemma half_sdiv: "\<bar>real_of_int a / 2 - real_of_int (a sdiv 2)\<bar> \<le> 1 / 2"
proof (cases "0 \<le> a")
  case True
  then have "a sdiv 2 = a div 2" by (simp add: sdiv_nonneg)
  then show ?thesis using half_div [OF True] by simp
next
  case False
  then have n: "0 \<le> - a" by simp
  have "a sdiv 2 = - ((- a) div 2)"
    using False by (simp add: signed_divide_int_def)
  then show ?thesis using half_div [OF n] by simp
qed

lemma half_close:
  "\<bar>(real_of_int a + real_of_int b) / 2 - real_of_int (a sdiv 2 + b sdiv 2)\<bar> \<le> 1"
proof -
  have "(real_of_int a + real_of_int b) / 2 - real_of_int (a sdiv 2 + b sdiv 2)
        = (real_of_int a / 2 - real_of_int (a sdiv 2)) + (real_of_int b / 2 - real_of_int (b sdiv 2))"
    by (simp add: add_divide_distrib)
  then show ?thesis
    using half_sdiv [of a] half_sdiv [of b] by linarith
qed

lemma sdiv_close: "\<bar>real_of_int (t sdiv 10) - real_of_int t / 10\<bar> < 1"
proof -
  have lin10: "\<And>A x r :: real. A = 10 * x + r \<Longrightarrow> 0 \<le> r \<Longrightarrow> r < 10
      \<Longrightarrow> 0 \<le> A / 10 - x \<and> A / 10 - x < 1"
    by (simp add: field_simps)
  have d: "\<And>n::int. 0 \<le> n \<Longrightarrow>
      0 \<le> real_of_int n / 10 - real_of_int (n div 10) \<and> real_of_int n / 10 - real_of_int (n div 10) < 1"
  proof -
    fix n :: int
    assume "0 \<le> n"
    have "n = 10 * (n div 10) + n mod 10" by simp
    then have e: "real_of_int n = 10 * real_of_int (n div 10) + real_of_int (n mod 10)"
      by (metis of_int_add of_int_mult of_int_numeral)
    have "0 \<le> n mod 10 \<and> n mod 10 < 10" by simp
    then have "0 \<le> real_of_int (n mod 10)" "real_of_int (n mod 10) < 10" by simp_all
    then show "0 \<le> real_of_int n / 10 - real_of_int (n div 10) \<and> real_of_int n / 10 - real_of_int (n div 10) < 1"
      using lin10 [OF e] by simp
  qed
  show ?thesis
  proof (cases "0 \<le> t")
    case True
    then have "t sdiv 10 = t div 10" by (simp add: sdiv_nonneg)
    then show ?thesis using d [OF True] by simp
  next
    case False
    then have n: "0 \<le> - t" by simp
    have "t sdiv 10 = - ((- t) div 10)"
      using False by (simp add: signed_divide_int_def)
    then show ?thesis using d [OF n] by simp
  qed
qed

lemma spec_skew_close:
  "\<bar>real_of_int (truncated_skew cpu gpu) - spec_clock_skew cpu gpu\<bar> < 2"
proof -
  let ?T = "difference_sum cpu gpu"
  let ?E = "\<Sum>i<10. (real_of_int (host1 cpu i) + real_of_int (host2 cpu i)) / 2
               - real_of_int (device_ns gpu i)"
  let ?d = "\<lambda>i. (real_of_int (host1 cpu i) + real_of_int (host2 cpu i)) / 2
                 - real_of_int (host1 cpu i sdiv 2 + host2 cpu i sdiv 2)"
  have diff: "?E - real_of_int ?T = (\<Sum>i<10. ?d i)"
    by (simp add: difference_sum_def sum_subtractf)
  have "\<bar>\<Sum>i<(10::nat). ?d i\<bar> \<le> (\<Sum>i<(10::nat). \<bar>?d i\<bar>)"
    by (rule sum_abs)
  also have "\<dots> \<le> (\<Sum>i<(10::nat). 1)"
    by (rule sum_mono) (rule half_close)
  finally have hi: "\<bar>\<Sum>i<(10::nat). ?d i\<bar> \<le> 10" by simp
  have c: "\<bar>real_of_int (?T sdiv 10) - real_of_int ?T / 10\<bar> < 1"
    by (rule sdiv_close)
  define X where "X = ?E - real_of_int ?T"
  define Y where "Y = real_of_int ?T / 10 - real_of_int (?T sdiv 10)"
  have 1: "spec_clock_skew cpu gpu - real_of_int (truncated_skew cpu gpu) = X / 10 + Y"
    by (simp add: spec_clock_skew_def truncated_skew_def diff_divide_distrib X_def Y_def)
  have 2: "\<bar>X\<bar> \<le> 10"
    using hi unfolding diff [symmetric] X_def by simp
  have 3: "\<bar>Y\<bar> < 1"
    using c unfolding Y_def by linarith
  show ?thesis
    using 1 2 3 by linarith
qed

text \<open>
  C4. With the flag false \<open>get_clock_skew\<close> returns 0. With the flag true it returns, as a
  64-bit value, the sum over the ten iterations of (half the first host reading + half the
  second host reading - the device reading) divided by ten, every quotient truncated
  towards zero. Whenever that sum is the value of an \<open>int64_t\<close>, whatever the size of the
  readings, the value returned is the truncated quotient of the sum by ten, and it is less
  than 2 away from the exact average of (average of the two host readings - device
  reading).
\<close>

theorem clock_skew_truncated_average:
  "(\<not> use \<longrightarrow> get_clock_skew use cpu gpu = 0)
   \<and> (use \<longrightarrow> get_clock_skew use cpu gpu = sdiv64 (word_of_int (difference_sum cpu gpu)) 10)
   \<and> (use \<and> fits_int64 (difference_sum cpu gpu) \<longrightarrow>
        sint (get_clock_skew use cpu gpu) = truncated_skew cpu gpu
        \<and> \<bar>real_of_int (sint (get_clock_skew use cpu gpu)) - spec_clock_skew cpu gpu\<bar> < 2)"
proof (intro conjI impI)
  assume "\<not> use"
  then show "get_clock_skew use cpu gpu = 0" by (simp add: get_clock_skew_def)
next
  assume "use"
  then show "get_clock_skew use cpu gpu = sdiv64 (word_of_int (difference_sum cpu gpu)) 10"
    by (simp add: get_clock_skew_def skew_sum_eq)
next
  assume a: "use \<and> fits_int64 (difference_sum cpu gpu)"
  then show "sint (get_clock_skew use cpu gpu) = truncated_skew cpu gpu"
    by (simp add: get_clock_skew_def clock_skew_truncated)
  then show "\<bar>real_of_int (sint (get_clock_skew use cpu gpu)) - spec_clock_skew cpu gpu\<bar> < 2"
    by (simp add: spec_skew_close)
qed

text \<open>
  A host clock that counts nanoseconds since 1970 and a device clock 601 ns behind it:
  the readings are far above \<open>2^59\<close>, the sum of the ten differences is 6000, the exact
  average is 601 and the code returns 600.
\<close>

theorem clock_skew_truncated_average_witness:
  "get_clock_skew False (\<lambda>k. 1700000000000001001) (\<lambda>k. 1700000000000000400) = 0
   \<and> get_clock_skew True (\<lambda>k. 1700000000000001001) (\<lambda>k. 1700000000000000400)
       = sdiv64 (word_of_int
           (difference_sum (\<lambda>k. 1700000000000001001) (\<lambda>k. 1700000000000000400))) 10
   \<and> difference_sum (\<lambda>k. 1700000000000001001) (\<lambda>k. 1700000000000000400) = 6000
   \<and> fits_int64 (difference_sum (\<lambda>k. 1700000000000001001) (\<lambda>k. 1700000000000000400))
   \<and> sint (get_clock_skew True (\<lambda>k. 1700000000000001001) (\<lambda>k. 1700000000000000400))
       = truncated_skew (\<lambda>k. 1700000000000001001) (\<lambda>k. 1700000000000000400)
   \<and> truncated_skew (\<lambda>k. 1700000000000001001) (\<lambda>k. 1700000000000000400) = 600
   \<and> spec_clock_skew (\<lambda>k. 1700000000000001001) (\<lambda>k. 1700000000000000400) = 601"
proof -
  have f: "\<not> False" by simp
  have h: "sint (1700000000000001001 :: int64) = 1700000000000001001" by simp
  have d: "difference_sum (\<lambda>k. 1700000000000001001) (\<lambda>k. 1700000000000000400) = 6000"
    by (simp add: difference_sum_def host1_def host2_def device_ns_def signed_divide_int_def h)
  have s: "fits_int64 (difference_sum (\<lambda>k. 1700000000000001001) (\<lambda>k. 1700000000000000400))"
    unfolding d by (simp add: fits_int64_def)
  have a: "True \<and> fits_int64 (difference_sum (\<lambda>k. 1700000000000001001) (\<lambda>k. 1700000000000000400))"
    using s by simp
  have v: "truncated_skew (\<lambda>k. 1700000000000001001) (\<lambda>k. 1700000000000000400) = 600"
    unfolding truncated_skew_def d by (simp add: signed_divide_int_def)
  have w: "spec_clock_skew (\<lambda>k. 1700000000000001001) (\<lambda>k. 1700000000000000400) = 601"
    by (simp add: spec_clock_skew_def host1_def host2_def device_ns_def h)
  note t0 = clock_skew_truncated_average [of False "\<lambda>k. 1700000000000001001" "\<lambda>k. 1700000000000000400"]
  note t1 = clock_skew_truncated_average [of True "\<lambda>k. 1700000000000001001" "\<lambda>k. 1700000000000000400"]
  show ?thesis
    by (intro conjI mp [OF conjunct1 [OF t0] f] mp [OF conjunct1 [OF conjunct2 [OF t1]] TrueI] d s
        conjunct1 [OF mp [OF conjunct2 [OF conjunct2 [OF t1]] a]] v w)
qed

text \<open>
  C4 as stated fails in two ways. With every host reading 1 and every device reading 0
  the average of (average of the host readings - device reading) is 1, and the code
  returns 0, because it halves each host reading before adding. And with a host clock
  that counts nanoseconds since 1970 (here 1700000000000000000) and a device clock that
  counts from boot (here 1000000000000), the sum of the ten differences does not fit in
  64 bits: it wraps around, and the code returns a negative skew.
\<close>

theorem clock_skew_average_counterexample:
  "sint (get_clock_skew True (\<lambda>k. 1) (\<lambda>k. 0)) = 0 \<and> spec_clock_skew (\<lambda>k. 1) (\<lambda>k. 0) = 1
   \<and> sint (get_clock_skew True (\<lambda>k. 1700000000000000000) (\<lambda>k. 1000000000000))
       = - 144675407370955161
   \<and> spec_clock_skew (\<lambda>k. 1700000000000000000) (\<lambda>k. 1000000000000)
       = 1699999000000000000"
proof -
  have a: "sint (get_clock_skew True (\<lambda>k. 1) (\<lambda>k. 0)) = 0"
    by (simp add: get_clock_skew_def clock_skew_value_def compute_def sdiv64_def eval_nat_numeral
        signed_divide_int_def)
  have b: "spec_clock_skew (\<lambda>k. 1) (\<lambda>k. 0) = 1"
    by (simp add: spec_clock_skew_def host1_def host2_def device_ns_def)
  have h: "sint (1700000000000000000 :: int64) = 1700000000000000000"
    "sint (16999990000000000000 :: int64) = - 1446754073709551616"
    "sint (10 :: int64) = 10" "sint (2 :: int64) = 2"
    by simp_all
  have c: "sint (get_clock_skew True (\<lambda>k. 1700000000000000000) (\<lambda>k. 1000000000000))
       = - 144675407370955161"
    by (simp add: get_clock_skew_def clock_skew_value_def compute_def sdiv64_def eval_nat_numeral
        signed_divide_int_def h)
  have d: "spec_clock_skew (\<lambda>k. 1700000000000000000) (\<lambda>k. 1000000000000)
       = 1699999000000000000"
    by (simp add: spec_clock_skew_def host1_def host2_def device_ns_def)
  show ?thesis
    by (intro conjI a b c d)
qed

section \<open>Properties of OnLoad\<close>

text \<open>
  C5. \<open>OnLoad\<close> returns true on every path. It makes no call, and so registers
  nothing, exactly when \<open>OMNITRACE_INIT_TOOLING\<close> is false; otherwise it registers the
  setup and the shutdown closure under \<open>hsa\<close> and runs the setup.
\<close>

theorem OnLoad_returns_true:
  "fst (OnLoad e)
   \<and> (snd (OnLoad e) = []) = (\<not> get_env_bool (init_tooling e) True)
   \<and> (get_env_bool (init_tooling e) True) =
       (Add_setup ''hsa'' \<in> set (snd (OnLoad e)) \<and> Add_shutdown ''hsa'' \<in> set (snd (OnLoad e))
        \<and> Roctracer_setup \<in> set (snd (OnLoad e)))"
  by (simp add: OnLoad_def)

text \<open>
  C5 as stated fails: with \<open>OMNITRACE_INIT_TOOLING\<close> false, \<open>OnLoad\<close> returns true, not
  false.
\<close>

theorem OnLoad_stand_down_counterexample:
  "\<not> get_env_bool (init_tooling \<lparr>init_tooling = Some False, settings_are_configured = False,
                                   tool_state = PreInit\<rparr>) True
   \<and> fst (OnLoad \<lparr>init_tooling = Some False, settings_are_configured = False,
                   tool_state = PreInit\<rparr>) = True"
  by (simp add: OnLoad_def get_env_bool_def)

section \<open>Properties of hip_exec_activity_callbacks\<close>

lemma fold_run_closure:
  "fold run_closure q t = t\<lparr>trace := trace t @ map Emit (samples q)\<rparr>"
proof (induction q arbitrary: t rule: samples.induct)
  case 1
  then show ?case by simp
next
  case (2 q)
  then show ?case by (simp add: run_closure_def)
next
  case (3 name beg_ns end_ns q)
  then show ?case by (simp add: run_closure_def emit_def)
qed

lemma emitted_under_lock_held:
  "emitted_under_lock tid True (map Emit es @ rest) = es @ emitted_under_lock tid True rest"
  by (induction es) simp_all

lemma hip_exec_trace:
  "activity_callbacks t tid = Some q \<Longrightarrow>
     hip_exec_activity_callbacks tid t =
       t\<lparr>trace := trace t @ [Acquire tid] @ map Emit (samples q) @ [Release tid],
         activity_callbacks := (activity_callbacks t)(tid \<mapsto> [])\<rparr>"
  by (simp add: hip_exec_activity_callbacks_def acquire_def release_def fold_run_closure)

lemma hip_exec_trace_null:
  "activity_callbacks t tid = None \<Longrightarrow>
     hip_exec_activity_callbacks tid t = t\<lparr>trace := trace t @ [Acquire tid, Release tid]\<rparr>"
  by (simp add: hip_exec_activity_callbacks_def acquire_def release_def)

text \<open>
  C3. Draining the queue of a thread: the lock is taken, every closure of the queue is run
  in the order of insertion while the lock is held, the queue is cleared, and the lock is
  released; afterwards the queue is empty.
\<close>

theorem drain_runs_fifo_under_lock:
  assumes "activity_callbacks t tid = Some q"
  shows "trace (hip_exec_activity_callbacks tid t) =
           trace t @ [Acquire tid] @ map Emit (samples q) @ [Release tid]
       \<and> emitted_under_lock tid False ([Acquire tid] @ map Emit (samples q) @ [Release tid])
           = samples q
       \<and> activity_callbacks (hip_exec_activity_callbacks tid t) tid = Some []"
  using assms by (simp add: hip_exec_trace emitted_under_lock_held)

theorem drain_runs_fifo_under_lock_witness:
  "trace (hip_exec_activity_callbacks 1
      ((active_tracer False True False)
         \<lparr>activity_callbacks := (\<lambda>thr. Some [Some (Closure ''foo'' 900 1900), None,
                                             Some (Closure ''bar'' 950 1200)])\<rparr>)) =
     [Acquire 1, Emit (BundleSample ''foo'' 900 1900), Emit (BundleSample ''bar'' 950 1200),
      Release 1]
   \<and> activity_callbacks (hip_exec_activity_callbacks 1
      ((active_tracer False True False)
         \<lparr>activity_callbacks := (\<lambda>thr. Some [Some (Closure ''foo'' 900 1900), None,
                                             Some (Closure ''bar'' 950 1200)])\<rparr>)) 1 = Some []"
proof -
  have a: "activity_callbacks ((active_tracer False True False)
         \<lparr>activity_callbacks := (\<lambda>thr. Some [Some (Closure ''foo'' 900 1900), None,
                                             Some (Closure ''bar'' 950 1200)])\<rparr>) 1
      = Some [Some (Closure ''foo'' 900 1900), None, Some (Closure ''bar'' 950 1200)]"
    by simp
  have b: "trace ((active_tracer False True False)
         \<lparr>activity_callbacks := (\<lambda>thr. Some [Some (Closure ''foo'' 900 1900), None,
                                             Some (Closure ''bar'' 950 1200)])\<rparr>) = []"
    by (simp add: active_tracer_def)
  note t = drain_runs_fifo_under_lock [OF a]
  show ?thesis
    using conjunct1 [OF t] conjunct2 [OF conjunct2 [OF t]] unfolding b by simp
qed

text \<open>
  C3 as stated fails: the closure of a queue with one element is run between the
  acquisition and the release of the lock, not after the release.
\<close>

theorem drain_outside_lock_counterexample:
  "trace (hip_exec_activity_callbacks 1
      ((active_tracer False True False)
         \<lparr>activity_callbacks := (\<lambda>thr. Some [Some (Closure ''foo'' 900 1900)])\<rparr>)) =
     [Acquire 1, Emit (BundleSample ''foo'' 900 1900), Release 1]
   \<and> emitted_under_lock 1 False
       (trace (hip_exec_activity_callbacks 1
          ((active_tracer False True False)
             \<lparr>activity_callbacks := (\<lambda>thr. Some [Some (Closure ''foo'' 900 1900)])\<rparr>))) =
     [BundleSample ''foo'' 900 1900]"
  by (simp add: hip_exec_activity_callbacks_def acquire_def release_def run_closure_def emit_def
      active_tracer_def)

section \<open>Properties of hsa_api_callback\<close>

lemma hsa_exit_emits:
  assumes "state t = Active" "roctracer_enabled t" "cid \<notin> set hsa_untraced"
      and "\<not> sint (begin_timestamp t thread) > sint now" "use_perfetto t"
  shows "trace (hsa_api_callback thread now name cid ACTIVITY_API_PHASE_EXIT t) =
           trace t @ [Emit (TraceEventBegin ''device'' name (begin_timestamp t thread) thread None []),
                      Emit (TraceEventEnd ''device'' now thread)]
                   @ (if use_timemory t \<and> task_pool t
                      then [Emit (HsaTask name (begin_timestamp t thread) now)] else [])"
proof -
  have "cid \<noteq> ''hsa_shut_down''"
    using assms(3) by (auto simp: hsa_untraced_def)
  then show ?thesis
    using assms by (simp add: hsa_api_callback_def Let_def emit_def)
qed

text \<open>
  C7, for the HSA API callback. In the exit phase of a call, when the begin timestamp
  recorded on the thread is greater than the end timestamp, the callback returns with
  nothing emitted and the state as it was.
\<close>

theorem hsa_inversion_dropped:
  assumes "ph = ACTIVITY_API_PHASE_EXIT" and "sint (begin_timestamp t thread) > sint now"
  shows "hsa_api_callback thread now name cid ph t = t"
proof (cases "cid = ''hsa_shut_down''")
  case True
  then have "cid \<in> set hsa_untraced" by (simp add: hsa_untraced_def)
  then show ?thesis by (simp add: hsa_api_callback_def)
next
  case False
  then show ?thesis using assms by (simp add: hsa_api_callback_def Let_def)
qed

theorem hsa_inversion_dropped_witness:
  "sint (begin_timestamp
           (hsa_api_callback 1 5 ''hsa_queue_create'' ''hsa_queue_create'' ACTIVITY_API_PHASE_ENTER
              (active_tracer True True False)) 1) > sint (3 :: int64)
   \<and> trace (hsa_api_callback 1 3 ''hsa_queue_create'' ''hsa_queue_create'' ACTIVITY_API_PHASE_EXIT
        (hsa_api_callback 1 5 ''hsa_queue_create'' ''hsa_queue_create'' ACTIVITY_API_PHASE_ENTER
           (active_tracer True True False))) = []"
proof -
  have u: "''hsa_queue_create'' \<notin> set hsa_untraced"
    by (simp add: hsa_untraced_def)
  have e: "hsa_api_callback 1 5 ''hsa_queue_create'' ''hsa_queue_create'' ACTIVITY_API_PHASE_ENTER
              (active_tracer True True False)
           = (active_tracer True True False)\<lparr>begin_timestamp := (\<lambda>thr. 0)(1 := 5)\<rparr>"
    using u by (simp add: hsa_api_callback_def active_tracer_def)
  have a: "sint (begin_timestamp
           (hsa_api_callback 1 5 ''hsa_queue_create'' ''hsa_queue_create'' ACTIVITY_API_PHASE_ENTER
              (active_tracer True True False)) 1) > sint (3 :: int64)"
    unfolding e by simp
  have r: "ACTIVITY_API_PHASE_EXIT = ACTIVITY_API_PHASE_EXIT" by simp
  have "trace (hsa_api_callback 1 5 ''hsa_queue_create'' ''hsa_queue_create'' ACTIVITY_API_PHASE_ENTER
           (active_tracer True True False)) = []"
    unfolding e by (simp add: active_tracer_def)
  then show ?thesis
    using a hsa_inversion_dropped [OF r a, of "''hsa_queue_create''" "''hsa_queue_create''"]
    by simp
qed

section \<open>Properties of hip_api_callback\<close>

lemma host_begins_append: "host_begins (xs @ ys) = host_begins xs @ host_begins ys"
  by (induction xs rule: host_begins.induct) simp_all

lemma host_ends_append: "host_ends (xs @ ys) = host_ends xs @ host_ends ys"
  by (induction xs rule: host_ends.induct) simp_all

lemma host_samples: "host_begins (map Emit (samples q)) = [] \<and> host_ends (map Emit (samples q)) = []"
  by (induction q rule: samples.induct) simp_all

lemma hip_exec_view:
  "host_view (hip_exec_activity_callbacks tid t) = host_view t
   \<and> cid_data (hip_exec_activity_callbacks tid t) = cid_data t"
proof (cases "activity_callbacks t tid")
  case None
  show ?thesis
    by (simp add: hip_exec_trace_null [OF None] host_view_def host_begins_append host_ends_append)
next
  case (Some q)
  show ?thesis
    by (simp add: hip_exec_trace [OF Some] host_view_def host_begins_append host_ends_append
        host_samples)
qed

lemma enter_kernel_name_view:
  "host_view (enter_kernel_name e cid d t) = host_view t"
  by (simp add: enter_kernel_name_def host_view_def split: option.splits)

lemma enter_perfetto_view:
  assumes "cpu_cid_entry e = (c, p, dp)"
  shows "host_view (enter_perfetto e op_name d t) =
     (state t, roctracer_enabled t, use_perfetto t,
      host_begins (trace t) @
        (if use_perfetto t
         then [TraceEventBegin ''host'' op_name (wall_clock e) (thread_id e) (Some c)
                 [(''pcid'', Num (int p)), (''cid'', Num (int c)), (''tid'', Num (thread_id e)),
                  (''depth'', Num (uint dp)), (''corr_id'', Num (int (correlation_id d)))]]
         else []),
      host_ends (trace t))"
  by (simp add: enter_perfetto_def assms host_view_def emit_def host_begins_append host_ends_append)

lemma enter_timemory_view:
  "host_view (enter_timemory e op_name d t) = host_view t"
  by (simp add: enter_timemory_def host_view_def emit_def host_begins_append host_ends_append
      Let_def split: option.splits)

lemma enter_critical_trace_view:
  "host_view (enter_critical_trace e op_name queue d t) = host_view t"
  by (simp add: enter_critical_trace_def host_view_def emit_def host_begins_append
      host_ends_append split: prod.splits)

lemma enter_cid_data_view:
  "host_view (enter_cid_data e d t) = host_view t
   \<and> cid_data (enter_cid_data e d t) (correlation_id d) \<noteq> None"
  by (cases "cid_data t (correlation_id d)")
    (simp_all add: enter_cid_data_def host_view_def emplace_def)

lemma hip_api_enter_view:
  assumes "cpu_cid_entry e = (c, p, dp)"
  shows "host_view (hip_api_enter e cid op_name queue d t) =
     (state t, roctracer_enabled t, use_perfetto t,
      host_begins (trace t) @
        (if use_perfetto t
         then [TraceEventBegin ''host'' op_name (wall_clock e) (thread_id e) (Some c)
                 [(''pcid'', Num (int p)), (''cid'', Num (int c)), (''tid'', Num (thread_id e)),
                  (''depth'', Num (uint dp)), (''corr_id'', Num (int (correlation_id d)))]]
         else []),
      host_ends (trace t))
   \<and> cid_data (hip_api_enter e cid op_name queue d t) (correlation_id d) \<noteq> None"
proof -
  have k: "host_view (enter_perfetto e op_name d (enter_kernel_name e cid d t)) =
     (state t, roctracer_enabled t, use_perfetto t,
      host_begins (trace t) @
        (if use_perfetto t
         then [TraceEventBegin ''host'' op_name (wall_clock e) (thread_id e) (Some c)
                 [(''pcid'', Num (int p)), (''cid'', Num (int c)), (''tid'', Num (thread_id e)),
                  (''depth'', Num (uint dp)), (''corr_id'', Num (int (correlation_id d)))]]
         else []),
      host_ends (trace t))"
    using enter_kernel_name_view [of e cid d t]
    unfolding enter_perfetto_view [OF assms] by (simp add: host_view_def)
  show ?thesis
    unfolding hip_api_enter_def
    by (simp add: hip_exec_view enter_cid_data_view enter_critical_trace_view enter_timemory_view k)
qed

lemma stop_bundle_view:
  "host_view (snd (stop_bundle corr thr t)) = host_view t"
  by (simp add: stop_bundle_def host_view_def emit_def host_begins_append host_ends_append
      split: option.splits)

lemma stop_first_view: "host_view (stop_first corr thrs t) = host_view t"
proof (induction thrs arbitrary: t)
  case Nil
  then show ?case by simp
next
  case (Cons i thrs)
  obtain b t' where s: "stop_bundle corr i t = (b, t')" by (cases "stop_bundle corr i t")
  have h: "host_view t' = host_view t"
    using stop_bundle_view [of corr i t] s by simp
  show ?case
    using s h Cons.IH [of t'] by (cases b) simp_all
qed

lemma exit_perfetto_view:
  "host_view (exit_perfetto e t) =
     (state t, roctracer_enabled t, use_perfetto t, host_begins (trace t),
      host_ends (trace t) @
        (if use_perfetto t then [TraceEventEnd ''host'' (wall_clock e) (thread_id e)] else []))"
  by (simp add: exit_perfetto_def host_view_def emit_def host_begins_append host_ends_append)

lemma exit_timemory_view: "host_view (exit_timemory e d t) = host_view t"
proof (cases "use_timemory t")
  case False
  then show ?thesis by (simp add: exit_timemory_def)
next
  case True
  obtain b t' where s: "stop_bundle (correlation_id d) (thread_id e) t = (b, t')"
    by (cases "stop_bundle (correlation_id d) (thread_id e) t")
  have h: "host_view t' = host_view t"
    using stop_bundle_view [of "correlation_id d" "thread_id e" t] s by simp
  show ?thesis
    using True s h by (cases b) (simp_all add: exit_timemory_def stop_first_view)
qed

lemma exit_critical_trace_view:
  "host_view (exit_critical_trace e op_name queue d triple t) = host_view t"
  by (simp add: exit_critical_trace_def host_view_def emit_def host_begins_append
      host_ends_append split: prod.splits)

lemma hip_api_exit_view:
  assumes "cid_data t (correlation_id d) \<noteq> None"
  shows "\<exists>t'. hip_api_exit e cid op_name queue d t = Inr t'
     \<and> host_view t' =
         (state t, roctracer_enabled t, use_perfetto t, host_begins (trace t),
          host_ends (trace t) @
            (if use_perfetto t then [TraceEventEnd ''host'' (wall_clock e) (thread_id e)] else []))"
proof -
  let ?t1 = "hip_exec_activity_callbacks (thread_id e) t"
  have v: "host_view ?t1 = host_view t" "cid_data ?t1 = cid_data t"
    using hip_exec_view [of "thread_id e" t] by simp_all
  obtain triple where k: "cid_data ?t1 (correlation_id d) = Some triple"
    using assms v(2) by (cases "cid_data t (correlation_id d)") auto
  have r: "hip_api_exit e cid op_name queue d t =
        Inr (exit_critical_trace e op_name queue d triple (exit_timemory e d (exit_perfetto e ?t1)))"
    using k by (simp add: hip_api_exit_def Let_def)
  have "host_view (exit_perfetto e ?t1) =
         (state t, roctracer_enabled t, use_perfetto t, host_begins (trace t),
          host_ends (trace t) @
            (if use_perfetto t then [TraceEventEnd ''host'' (wall_clock e) (thread_id e)] else []))"
    using v(1) unfolding exit_perfetto_view by (simp add: host_view_def)
  then show ?thesis
    unfolding r by (simp add: exit_critical_trace_view exit_timemory_view)
qed
lemma events_append: "events (xs @ ys) = events xs @ events ys"
  by (induction xs rule: events.induct) simp_all

lemma begin_events_append: "begin_events (xs @ ys) = begin_events xs @ begin_events ys"
  by (simp add: begin_events_def events_append)

lemma end_events_append: "end_events (xs @ ys) = end_events xs @ end_events ys"
  by (simp add: end_events_def events_append)

lemma sink_events_one:
  "begin_events [Emit ev] = (if sink_begin ev then [ev] else [])"
  "end_events [Emit ev] = (if sink_end ev then [ev] else [])"
  "begin_events [Acquire m] = []" "end_events [Acquire m] = []"
  "begin_events [Release m] = []" "end_events [Release m] = []"
  by (simp_all add: begin_events_def end_events_def)

lemma events_emit: "events (map Emit es) = es"
  by (induction es) simp_all

lemma sink_samples:
  "filter sink_begin (samples q) = [] \<and> filter sink_end (samples q) = []"
  by (induction q rule: samples.induct) simp_all

lemma hip_exec_sinks: "sink_view (hip_exec_activity_callbacks tid t) = sink_view t"
proof (cases "activity_callbacks t tid")
  case None
  show ?thesis
    by (simp add: hip_exec_trace_null [OF None] sink_view_def begin_events_def end_events_def
        events_append)
next
  case (Some q)
  show ?thesis
    by (simp add: hip_exec_trace [OF Some] sink_view_def begin_events_def end_events_def
        events_append events_emit sink_samples)
qed

lemma enter_kernel_name_sinks: "sink_view (enter_kernel_name e cid d t) = sink_view t"
  by (simp add: enter_kernel_name_def sink_view_def split: option.splits)

lemma enter_perfetto_sinks:
  assumes "cpu_cid_entry e = (c, p, dp)"
  shows "sink_view (enter_perfetto e op_name d t) =
     (state t, roctracer_enabled t, use_perfetto t, use_timemory t,
      use_critical_trace t \<or> use_rocm_smi t, hip_data t, cid_data t,
      begin_events (trace t) @
        (if use_perfetto t
         then [TraceEventBegin ''host'' op_name (wall_clock e) (thread_id e) (Some c)
                 [(''pcid'', Num (int p)), (''cid'', Num (int c)), (''tid'', Num (thread_id e)),
                  (''depth'', Num (uint dp)), (''corr_id'', Num (int (correlation_id d)))]]
         else []),
      end_events (trace t))"
  by (simp add: enter_perfetto_def assms sink_view_def emit_def begin_events_append
      end_events_append sink_events_one)

lemma enter_timemory_sinks:
  assumes "hip_data t (thread_id e) (correlation_id d) = None"
  shows "sink_view (enter_timemory e op_name d t) =
     (state t, roctracer_enabled t, use_perfetto t, use_timemory t,
      use_critical_trace t \<or> use_rocm_smi t,
      (if use_timemory t
       then (hip_data t)(thread_id e := (hip_data t (thread_id e))(correlation_id d \<mapsto> op_name))
       else hip_data t),
      cid_data t,
      begin_events (trace t) @
        (if use_timemory t then [BundleStart (correlation_id d) op_name (thread_id e)] else []),
      end_events (trace t))"
  by (simp add: enter_timemory_def assms sink_view_def emit_def begin_events_append
      end_events_append sink_events_one Let_def)

lemma enter_critical_trace_sinks:
  assumes "cpu_cid_entry e = (c, p, dp)"
  shows "sink_view (enter_critical_trace e op_name queue d t) =
     (state t, roctracer_enabled t, use_perfetto t, use_timemory t,
      use_critical_trace t \<or> use_rocm_smi t, hip_data t, cid_data t,
      begin_events (trace t) @
        (if use_critical_trace t \<or> use_rocm_smi t
         then [CriticalTrace CPU BEGIN (thread_id e) c (correlation_id d) p (wall_clock e) 0
                 queue op_name (uint dp) 0]
         else []),
      end_events (trace t))"
  by (simp add: enter_critical_trace_def assms sink_view_def emit_def begin_events_append
      end_events_append sink_events_one)

lemma enter_cid_data_sinks:
  "sink_view (enter_cid_data e d t) =
     (state t, roctracer_enabled t, use_perfetto t, use_timemory t,
      use_critical_trace t \<or> use_rocm_smi t, hip_data t,
      emplace (cid_data t) (correlation_id d) (cpu_cid_entry e),
      begin_events (trace t), end_events (trace t))"
  by (simp add: enter_cid_data_def sink_view_def)

lemma emplace_lookup:
  "emplace m k v k = Some (case m k of None \<Rightarrow> v | Some old \<Rightarrow> old)"
  by (simp add: emplace_def split: option.splits)

lemma hip_api_enter_sinks:
  assumes "cpu_cid_entry e = (c, p, dp)"
    and "hip_data t (thread_id e) (correlation_id d) = None"
  shows "sink_view (hip_api_enter e cid op_name queue d t) =
     (state t, roctracer_enabled t, use_perfetto t, use_timemory t,
      use_critical_trace t \<or> use_rocm_smi t,
      (if use_timemory t
       then (hip_data t)(thread_id e := (hip_data t (thread_id e))(correlation_id d \<mapsto> op_name))
       else hip_data t),
      emplace (cid_data t) (correlation_id d) (c, p, dp),
      begin_events (trace t) @
        (if use_perfetto t
         then [TraceEventBegin ''host'' op_name (wall_clock e) (thread_id e) (Some c)
                 [(''pcid'', Num (int p)), (''cid'', Num (int c)), (''tid'', Num (thread_id e)),
                  (''depth'', Num (uint dp)), (''corr_id'', Num (int (correlation_id d)))]]
         else []) @
        (if use_timemory t then [BundleStart (correlation_id d) op_name (thread_id e)] else []) @
        (if use_critical_trace t \<or> use_rocm_smi t
         then [CriticalTrace CPU BEGIN (thread_id e) c (correlation_id d) p (wall_clock e) 0
                 queue op_name (uint dp) 0]
         else []),
      end_events (trace t))"
proof -
  let ?k = "enter_kernel_name e cid d t"
  let ?p = "enter_perfetto e op_name d ?k"
  let ?m = "enter_timemory e op_name d ?p"
  let ?c = "enter_critical_trace e op_name queue d ?m"
  let ?i = "enter_cid_data e d ?c"
  note k = enter_kernel_name_sinks [of e cid d t]
  have p: "sink_view ?p =
     (state t, roctracer_enabled t, use_perfetto t, use_timemory t,
      use_critical_trace t \<or> use_rocm_smi t, hip_data t, cid_data t,
      begin_events (trace t) @
        (if use_perfetto t
         then [TraceEventBegin ''host'' op_name (wall_clock e) (thread_id e) (Some c)
                 [(''pcid'', Num (int p)), (''cid'', Num (int c)), (''tid'', Num (thread_id e)),
                  (''depth'', Num (uint dp)), (''corr_id'', Num (int (correlation_id d)))]]
         else []),
      end_events (trace t))"
    using k unfolding enter_perfetto_sinks [OF assms(1)] by (simp add: sink_view_def)
  have hp: "hip_data ?p (thread_id e) (correlation_id d) = None"
    using p assms(2) by (simp add: sink_view_def)
  have m: "sink_view ?m =
     (state t, roctracer_enabled t, use_perfetto t, use_timemory t,
      use_critical_trace t \<or> use_rocm_smi t,
      (if use_timemory t
       then (hip_data t)(thread_id e := (hip_data t (thread_id e))(correlation_id d \<mapsto> op_name))
       else hip_data t),
      cid_data t,
      begin_events (trace t) @
        (if use_perfetto t
         then [TraceEventBegin ''host'' op_name (wall_clock e) (thread_id e) (Some c)
                 [(''pcid'', Num (int p)), (''cid'', Num (int c)), (''tid'', Num (thread_id e)),
                  (''depth'', Num (uint dp)), (''corr_id'', Num (int (correlation_id d)))]]
         else []) @
        (if use_timemory t then [BundleStart (correlation_id d) op_name (thread_id e)] else []),
      end_events (trace t))"
    using p unfolding enter_timemory_sinks [OF hp] by (simp add: sink_view_def)
  have c: "sink_view ?c =
     (state t, roctracer_enabled t, use_perfetto t, use_timemory t,
      use_critical_trace t \<or> use_rocm_smi t,
      (if use_timemory t
       then (hip_data t)(thread_id e := (hip_data t (thread_id e))(correlation_id d \<mapsto> op_name))
       else hip_data t),
      cid_data t,
      begin_events (trace t) @
        (if use_perfetto t
         then [TraceEventBegin ''host'' op_name (wall_clock e) (thread_id e) (Some c)
                 [(''pcid'', Num (int p)), (''cid'', Num (int c)), (''tid'', Num (thread_id e)),
                  (''depth'', Num (uint dp)), (''corr_id'', Num (int (correlation_id d)))]]
         else []) @
        (if use_timemory t then [BundleStart (correlation_id d) op_name (thread_id e)] else []) @
        (if use_critical_trace t \<or> use_rocm_smi t
         then [CriticalTrace CPU BEGIN (thread_id e) c (correlation_id d) p (wall_clock e) 0
                 queue op_name (uint dp) 0]
         else []),
      end_events (trace t))"
    using m unfolding enter_critical_trace_sinks [OF assms(1)] by (simp add: sink_view_def)
  have i: "sink_view ?i =
     (state t, roctracer_enabled t, use_perfetto t, use_timemory t,
      use_critical_trace t \<or> use_rocm_smi t,
      (if use_timemory t
       then (hip_data t)(thread_id e := (hip_data t (thread_id e))(correlation_id d \<mapsto> op_name))
       else hip_data t),
      emplace (cid_data t) (correlation_id d) (c, p, dp),
      begin_events (trace t) @
        (if use_perfetto t
         then [TraceEventBegin ''host'' op_name (wall_clock e) (thread_id e) (Some c)
                 [(''pcid'', Num (int p)), (''cid'', Num (int c)), (''tid'', Num (thread_id e)),
                  (''depth'', Num (uint dp)), (''corr_id'', Num (int (correlation_id d)))]]
         else []) @
        (if use_timemory t then [BundleStart (correlation_id d) op_name (thread_id e)] else []) @
        (if use_critical_trace t \<or> use_rocm_smi t
         then [CriticalTrace CPU BEGIN (thread_id e) c (correlation_id d) p (wall_clock e) 0
                 queue op_name (uint dp) 0]
         else []),
      end_events (trace t))"
    using c unfolding enter_cid_data_sinks assms(1) by (simp add: sink_view_def)
  show ?thesis
    unfolding hip_api_enter_def hip_exec_sinks by (rule i)
qed

lemma exit_perfetto_sinks:
  "sink_view (exit_perfetto e t) =
     (state t, roctracer_enabled t, use_perfetto t, use_timemory t,
      use_critical_trace t \<or> use_rocm_smi t, hip_data t, cid_data t, begin_events (trace t),
      end_events (trace t) @
        (if use_perfetto t then [TraceEventEnd ''host'' (wall_clock e) (thread_id e)] else []))"
  by (simp add: exit_perfetto_def sink_view_def emit_def begin_events_append end_events_append
      sink_events_one)

lemma exit_timemory_sinks:
  assumes "hip_data t (thread_id e) (correlation_id d) = Some b"
  shows "sink_view (exit_timemory e d t) =
     (state t, roctracer_enabled t, use_perfetto t, use_timemory t,
      use_critical_trace t \<or> use_rocm_smi t,
      (if use_timemory t
       then (hip_data t)(thread_id e := (hip_data t (thread_id e))(correlation_id d := None))
       else hip_data t),
      cid_data t, begin_events (trace t),
      end_events (trace t) @
        (if use_timemory t then [BundleStop (correlation_id d) (thread_id e)] else []))"
  by (simp add: exit_timemory_def stop_bundle_def assms sink_view_def emit_def
      begin_events_append end_events_append sink_events_one)

lemma exit_timemory_off_sinks:
  assumes "\<not> use_timemory t"
  shows "sink_view (exit_timemory e d t) =
     (state t, roctracer_enabled t, use_perfetto t, use_timemory t,
      use_critical_trace t \<or> use_rocm_smi t, hip_data t, cid_data t, begin_events (trace t),
      end_events (trace t))"
  using assms by (simp add: exit_timemory_def sink_view_def)

lemma exit_critical_trace_sinks:
  "sink_view (exit_critical_trace e op_name queue d (c, p, dp) t) =
     (state t, roctracer_enabled t, use_perfetto t, use_timemory t,
      use_critical_trace t \<or> use_rocm_smi t, hip_data t, cid_data t, begin_events (trace t),
      end_events (trace t) @
        (if use_critical_trace t \<or> use_rocm_smi t
         then [CriticalTrace CPU END (thread_id e) c (correlation_id d) p (wall_clock e)
                 (wall_clock e) queue op_name (uint dp) 0]
         else []))"
  by (simp add: exit_critical_trace_def sink_view_def emit_def begin_events_append
      end_events_append sink_events_one)

lemma hip_api_exit_sinks:
  assumes "cid_data t (correlation_id d) = Some (c, p, dp)"
    and "use_timemory t \<longrightarrow> hip_data t (thread_id e) (correlation_id d) \<noteq> None"
  shows "\<exists>t'. hip_api_exit e cid op_name queue d t = Inr t'
     \<and> state t' = state t \<and> roctracer_enabled t' = roctracer_enabled t
     \<and> begin_events (trace t') = begin_events (trace t)
     \<and> end_events (trace t') = end_events (trace t) @
         (if use_perfetto t then [TraceEventEnd ''host'' (wall_clock e) (thread_id e)] else []) @
         (if use_timemory t then [BundleStop (correlation_id d) (thread_id e)] else []) @
         (if use_critical_trace t \<or> use_rocm_smi t
          then [CriticalTrace CPU END (thread_id e) c (correlation_id d) p (wall_clock e)
                  (wall_clock e) queue op_name (uint dp) 0]
          else [])"
proof -
  let ?x = "hip_exec_activity_callbacks (thread_id e) t"
  let ?p = "exit_perfetto e ?x"
  let ?m = "exit_timemory e d ?p"
  note x = hip_exec_sinks [of "thread_id e" t]
  have k: "cid_data ?x (correlation_id d) = Some (c, p, dp)"
    using x assms(1) by (simp add: sink_view_def)
  have r: "hip_api_exit e cid op_name queue d t =
        Inr (exit_critical_trace e op_name queue d (c, p, dp) ?m)"
    using k by (simp add: hip_api_exit_def Let_def)
  have p: "sink_view ?p =
     (state t, roctracer_enabled t, use_perfetto t, use_timemory t,
      use_critical_trace t \<or> use_rocm_smi t, hip_data t, cid_data t, begin_events (trace t),
      end_events (trace t) @
        (if use_perfetto t then [TraceEventEnd ''host'' (wall_clock e) (thread_id e)] else []))"
    using x unfolding exit_perfetto_sinks by (simp add: sink_view_def)
  have m: "sink_view ?m =
     (state t, roctracer_enabled t, use_perfetto t, use_timemory t,
      use_critical_trace t \<or> use_rocm_smi t,
      (if use_timemory t
       then (hip_data t)(thread_id e := (hip_data t (thread_id e))(correlation_id d := None))
       else hip_data t),
      cid_data t, begin_events (trace t),
      end_events (trace t) @
        (if use_perfetto t then [TraceEventEnd ''host'' (wall_clock e) (thread_id e)] else []) @
        (if use_timemory t then [BundleStop (correlation_id d) (thread_id e)] else []))"
  proof (cases "use_timemory t")
    case True
    then obtain b where "hip_data t (thread_id e) (correlation_id d) = Some b"
      using assms(2) by (cases "hip_data t (thread_id e) (correlation_id d)") simp_all
    then have hb: "hip_data ?p (thread_id e) (correlation_id d) = Some b"
      using p by (simp add: sink_view_def)
    show ?thesis
      using p True unfolding exit_timemory_sinks [OF hb] by (simp add: sink_view_def)
  next
    case False
    then have off: "\<not> use_timemory ?p" using p by (simp add: sink_view_def)
    show ?thesis
      using p False unfolding exit_timemory_off_sinks [OF off] by (simp add: sink_view_def)
  qed
  have c: "sink_view (exit_critical_trace e op_name queue d (c, p, dp) ?m) =
     (state t, roctracer_enabled t, use_perfetto t, use_timemory t,
      use_critical_trace t \<or> use_rocm_smi t,
      (if use_timemory t
       then (hip_data t)(thread_id e := (hip_data t (thread_id e))(correlation_id d := None))
       else hip_data t),
      cid_data t, begin_events (trace t),
      end_events (trace t) @
        (if use_perfetto t then [TraceEventEnd ''host'' (wall_clock e) (thread_id e)] else []) @
        (if use_timemory t then [BundleStop (correlation_id d) (thread_id e)] else []) @
        (if use_critical_trace t \<or> use_rocm_smi t
         then [CriticalTrace CPU END (thread_id e) c (correlation_id d) p (wall_clock e)
                 (wall_clock e) queue op_name (uint dp) 0]
         else []))"
    using m unfolding exit_critical_trace_sinks by (simp add: sink_view_def)
  show ?thesis
    unfolding r using c by (simp add: sink_view_def)
qed

lemma hip_api_pair:
  assumes "state t = Active" and "roctracer_enabled t"
    and "(case op_string e1 of None \<Rightarrow> api_name e1 | Some n \<Rightarrow> Some n) = Some name1"
    and "(case op_string e2 of None \<Rightarrow> api_name e2 | Some n \<Rightarrow> Some n) = Some name2"
    and "cid \<notin> set (hip_untraced (hip_version e1))"
    and "cid \<notin> set (hip_untraced (hip_version e2))"
    and "phase d1 = ACTIVITY_API_PHASE_ENTER" and "phase d2 = ACTIVITY_API_PHASE_EXIT"
    and "correlation_id d2 = correlation_id d1"
    and "cpu_cid_entry e1 = (c, p, dp)"
  shows "\<exists>t1 t2. hip_api_callback e1 cid d1 t = Inr t1 \<and> hip_api_callback e2 cid d2 t1 = Inr t2
     \<and> host_begins (trace t1) = host_begins (trace t) @
         (if use_perfetto t
          then [TraceEventBegin ''host'' name1 (wall_clock e1) (thread_id e1) (Some c)
                  [(''pcid'', Num (int p)), (''cid'', Num (int c)), (''tid'', Num (thread_id e1)),
                   (''depth'', Num (uint dp)), (''corr_id'', Num (int (correlation_id d1)))]]
          else [])
     \<and> host_ends (trace t1) = host_ends (trace t)
     \<and> host_begins (trace t2) = host_begins (trace t1)
     \<and> host_ends (trace t2) = host_ends (trace t1) @
         (if use_perfetto t then [TraceEventEnd ''host'' (wall_clock e2) (thread_id e2)] else [])"
proof -
  let ?q1 = "if cid \<in> set (hip_queue_apis (hip_version e1)) then stream d1 else 0"
  let ?q2 = "if cid \<in> set (hip_queue_apis (hip_version e2)) then stream d2 else 0"
  let ?t1 = "hip_api_enter e1 cid name1 ?q1 d1 t"
  have a: "hip_api_callback e1 cid d1 t = Inr ?t1"
    using assms(1,2,3,5,7) by (simp add: hip_api_callback_def)
  note v = hip_api_enter_view [OF assms(10), of cid name1 ?q1 d1 t]
  have s: "state ?t1 = Active" "roctracer_enabled ?t1" "use_perfetto ?t1 = use_perfetto t"
    using conjunct1 [OF v] assms(1,2) by (simp_all add: host_view_def)
  have k: "cid_data ?t1 (correlation_id d2) \<noteq> None"
    using conjunct2 [OF v] assms(9) by simp
  obtain t2 where x: "hip_api_exit e2 cid name2 ?q2 d2 ?t1 = Inr t2"
     "host_view t2 =
         (state ?t1, roctracer_enabled ?t1, use_perfetto ?t1, host_begins (trace ?t1),
          host_ends (trace ?t1) @
            (if use_perfetto ?t1 then [TraceEventEnd ''host'' (wall_clock e2) (thread_id e2)] else []))"
    using hip_api_exit_view [OF k, of e2 cid name2 ?q2] by blast
  have b: "hip_api_callback e2 cid d2 ?t1 = Inr t2"
    using s assms(4,6,8) x(1) by (simp add: hip_api_callback_def)
  show ?thesis
    using a b conjunct1 [OF v] x(2) s(3) by (simp add: host_view_def)
qed

text \<open>
  C1. A host-API call that \<open>hip_api_callback\<close> traces (the tracer is active, the API has
  a name and is not one of the dropped ids), delivered as \<open>ENTER\<close> and then \<open>EXIT\<close> with
  the same correlation id on the same thread, no bundle running for the id on that thread
  before. For each of the three sinks that is enabled the \<open>ENTER\<close> phase hands exactly one
  \<open>BEGIN\<close> to it, in this order: the perfetto \<open>BEGIN\<close> event (with the correlation id and
  the clock reading of the \<open>ENTER\<close> call), the start of the timemory bundle of the
  correlation id, and the critical trace entry of phase \<open>BEGIN\<close> (with the correlation id
  and the clock reading); it hands over no \<open>END\<close>. The \<open>EXIT\<close> phase hands exactly one
  \<open>END\<close> to each enabled sink, with the clock reading of the \<open>EXIT\<close> call or, for the
  bundle, the correlation id, and no \<open>BEGIN\<close>. A sink that is disabled gets nothing: with
  all three disabled there is neither \<open>BEGIN\<close> nor \<open>END\<close>. The critical trace entry of the
  \<open>EXIT\<close> phase carries the causal triple registered for the correlation id, which is the
  one of the \<open>ENTER\<close> call unless the id had one before.
\<close>

theorem host_api_begin_end:
  assumes "state t = Active" and "roctracer_enabled t"
    and "(case op_string e1 of None \<Rightarrow> api_name e1 | Some n \<Rightarrow> Some n) = Some name1"
    and "(case op_string e2 of None \<Rightarrow> api_name e2 | Some n \<Rightarrow> Some n) = Some name2"
    and "cid \<notin> set (hip_untraced (hip_version e1))"
    and "cid \<notin> set (hip_untraced (hip_version e2))"
    and "phase d1 = ACTIVITY_API_PHASE_ENTER" and "phase d2 = ACTIVITY_API_PHASE_EXIT"
    and "correlation_id d2 = correlation_id d1" and "thread_id e2 = thread_id e1"
    and "hip_data t (thread_id e1) (correlation_id d1) = None"
    and "cpu_cid_entry e1 = (c, p, dp)"
    and "(case cid_data t (correlation_id d1) of None \<Rightarrow> (c, p, dp) | Some old \<Rightarrow> old)
           = (c', p', dp')"
  shows "\<exists>t1 t2. hip_api_callback e1 cid d1 t = Inr t1 \<and> hip_api_callback e2 cid d2 t1 = Inr t2
     \<and> begin_events (trace t1) = begin_events (trace t) @
         (if use_perfetto t
          then [TraceEventBegin ''host'' name1 (wall_clock e1) (thread_id e1) (Some c)
                  [(''pcid'', Num (int p)), (''cid'', Num (int c)), (''tid'', Num (thread_id e1)),
                   (''depth'', Num (uint dp)), (''corr_id'', Num (int (correlation_id d1)))]]
          else []) @
         (if use_timemory t then [BundleStart (correlation_id d1) name1 (thread_id e1)] else []) @
         (if use_critical_trace t \<or> use_rocm_smi t
          then [CriticalTrace CPU BEGIN (thread_id e1) c (correlation_id d1) p (wall_clock e1) 0
                  (call_queue e1 cid d1) name1 (uint dp) 0]
          else [])
     \<and> end_events (trace t1) = end_events (trace t)
     \<and> begin_events (trace t2) = begin_events (trace t1)
     \<and> end_events (trace t2) = end_events (trace t1) @
         (if use_perfetto t then [TraceEventEnd ''host'' (wall_clock e2) (thread_id e1)] else []) @
         (if use_timemory t then [BundleStop (correlation_id d1) (thread_id e1)] else []) @
         (if use_critical_trace t \<or> use_rocm_smi t
          then [CriticalTrace CPU END (thread_id e1) c' (correlation_id d1) p' (wall_clock e2)
                  (wall_clock e2) (call_queue e2 cid d2) name2 (uint dp') 0]
          else [])"
proof -
  let ?q1 = "if cid \<in> set (hip_queue_apis (hip_version e1)) then stream d1 else 0"
  let ?q2 = "if cid \<in> set (hip_queue_apis (hip_version e2)) then stream d2 else 0"
  let ?t1 = "hip_api_enter e1 cid name1 ?q1 d1 t"
  have a: "hip_api_callback e1 cid d1 t = Inr ?t1"
    using assms(1,2,3,5,7) by (simp add: hip_api_callback_def)
  note v = hip_api_enter_sinks [OF assms(12) assms(11), of cid name1 ?q1]
  have s: "state ?t1 = Active" "roctracer_enabled ?t1" "use_perfetto ?t1 = use_perfetto t"
    "use_timemory ?t1 = use_timemory t"
    "(use_critical_trace ?t1 \<or> use_rocm_smi ?t1) = (use_critical_trace t \<or> use_rocm_smi t)"
    using v assms(1,2) by (simp_all add: sink_view_def)
  have k: "cid_data ?t1 (correlation_id d2) = Some (c', p', dp')"
    using v assms(9,13) by (simp add: sink_view_def emplace_lookup)
  have h: "use_timemory ?t1 \<longrightarrow> hip_data ?t1 (thread_id e2) (correlation_id d2) \<noteq> None"
    using v assms(9,10) by (simp add: sink_view_def)
  obtain t2 where x: "hip_api_exit e2 cid name2 ?q2 d2 ?t1 = Inr t2"
     "begin_events (trace t2) = begin_events (trace ?t1)"
     "end_events (trace t2) = end_events (trace ?t1) @
         (if use_perfetto ?t1 then [TraceEventEnd ''host'' (wall_clock e2) (thread_id e2)] else []) @
         (if use_timemory ?t1 then [BundleStop (correlation_id d2) (thread_id e2)] else []) @
         (if use_critical_trace ?t1 \<or> use_rocm_smi ?t1
          then [CriticalTrace CPU END (thread_id e2) c' (correlation_id d2) p' (wall_clock e2)
                  (wall_clock e2) ?q2 name2 (uint dp') 0]
          else [])"
    using hip_api_exit_sinks [OF k h, of cid name2 ?q2] by blast
  have b: "hip_api_callback e2 cid d2 ?t1 = Inr t2"
    using s(1,2) assms(4,6,8) x(1) by (simp add: hip_api_callback_def)
  have y: "begin_events (trace ?t1) = begin_events (trace t) @
         (if use_perfetto t
          then [TraceEventBegin ''host'' name1 (wall_clock e1) (thread_id e1) (Some c)
                  [(''pcid'', Num (int p)), (''cid'', Num (int c)), (''tid'', Num (thread_id e1)),
                   (''depth'', Num (uint dp)), (''corr_id'', Num (int (correlation_id d1)))]]
          else []) @
         (if use_timemory t then [BundleStart (correlation_id d1) name1 (thread_id e1)] else []) @
         (if use_critical_trace t \<or> use_rocm_smi t
          then [CriticalTrace CPU BEGIN (thread_id e1) c (correlation_id d1) p (wall_clock e1) 0
                  (call_queue e1 cid d1) name1 (uint dp) 0]
          else [])"
    "end_events (trace ?t1) = end_events (trace t)"
    using v by (simp_all add: sink_view_def call_queue_def)
  have z: "end_events (trace t2) = end_events (trace ?t1) @
         (if use_perfetto t then [TraceEventEnd ''host'' (wall_clock e2) (thread_id e1)] else []) @
         (if use_timemory t then [BundleStop (correlation_id d1) (thread_id e1)] else []) @
         (if use_critical_trace t \<or> use_rocm_smi t
          then [CriticalTrace CPU END (thread_id e1) c' (correlation_id d1) p' (wall_clock e2)
                  (wall_clock e2) (call_queue e2 cid d2) name2 (uint dp') 0]
          else [])"
    unfolding x(3) s(3,4,5) assms(9,10) call_queue_def by (rule refl)
  show ?thesis
    by (rule exI [of _ "?t1"], rule exI [of _ t2]) (intro conjI a b y x(2) z)
qed

lemma memcpy_facts:
  "state (active_tracer pf tm ct) = Active" "roctracer_enabled (active_tracer pf tm ct)"
  "(case op_string (memcpy_call now) of None \<Rightarrow> api_name (memcpy_call now) | Some n \<Rightarrow> Some n)
     = Some ''hipMemcpyAsync''"
  "''hipMemcpyAsync'' \<notin> set (hip_untraced (hip_version (memcpy_call now)))"
  "phase (memcpy_data ph) = ph"
  "correlation_id (memcpy_data ph) = 7"
  "cpu_cid_entry (memcpy_call now) = (3, 2, 1)"
  "wall_clock (memcpy_call now) = now" "thread_id (memcpy_call now) = 1"
  "trace (active_tracer pf tm ct) = []" "use_perfetto (active_tracer pf tm ct) = pf"
  by (simp_all add: active_tracer_def memcpy_call_def memcpy_data_def hip_untraced_def)

lemma memcpy_sinks:
  "hip_data (active_tracer pf tm ct) thr corr = None"
  "cid_data (active_tracer pf tm ct) corr = None"
  "use_timemory (active_tracer pf tm ct) = tm"
  "use_critical_trace (active_tracer pf tm ct) = ct"
  "use_rocm_smi (active_tracer pf tm ct) = False"
  "call_queue (memcpy_call now) ''hipMemcpyAsync'' (memcpy_data ph) = 16"
  "begin_events [] = []" "end_events [] = []"
  by (simp_all add: active_tracer_def memcpy_call_def memcpy_data_def call_queue_def
      hip_queue_apis_def begin_events_def end_events_def)

text \<open>
  A call of \<open>hipMemcpyAsync\<close> with all three sinks enabled, the clock at 100 in the
  \<open>ENTER\<close> call and at 250 in the \<open>EXIT\<close> call: three \<open>BEGIN\<close> and three \<open>END\<close>, one for
  each sink.
\<close>

theorem host_api_begin_end_witness:
  "\<exists>t1 t2. hip_api_callback (memcpy_call 100) ''hipMemcpyAsync''
              (memcpy_data ACTIVITY_API_PHASE_ENTER) (active_tracer True True True) = Inr t1
     \<and> hip_api_callback (memcpy_call 250) ''hipMemcpyAsync''
              (memcpy_data ACTIVITY_API_PHASE_EXIT) t1 = Inr t2
     \<and> begin_events (trace t2) =
          [TraceEventBegin ''host'' ''hipMemcpyAsync'' 100 1 (Some 3)
             [(''pcid'', Num 2), (''cid'', Num 3), (''tid'', Num 1), (''depth'', Num 1),
              (''corr_id'', Num 7)],
           BundleStart 7 ''hipMemcpyAsync'' 1,
           CriticalTrace CPU BEGIN 1 3 7 2 100 0 16 ''hipMemcpyAsync'' 1 0]
     \<and> end_events (trace t2) =
          [TraceEventEnd ''host'' 250 1, BundleStop 7 1,
           CriticalTrace CPU END 1 3 7 2 250 250 16 ''hipMemcpyAsync'' 1 0]"
proof -
  have c9: "correlation_id (memcpy_data ACTIVITY_API_PHASE_EXIT) =
            correlation_id (memcpy_data ACTIVITY_API_PHASE_ENTER)"
    by (simp add: memcpy_facts)
  have c10: "thread_id (memcpy_call 250) = thread_id (memcpy_call 100)"
    by (simp add: memcpy_facts)
  have c13: "(case cid_data (active_tracer True True True)
                     (correlation_id (memcpy_data ACTIVITY_API_PHASE_ENTER)) of
                None \<Rightarrow> (3, 2, 1) | Some old \<Rightarrow> old) = (3, 2, 1 :: uint16)"
    by (simp add: memcpy_sinks)
  obtain t1 t2 where
    "hip_api_callback (memcpy_call 100) ''hipMemcpyAsync''
        (memcpy_data ACTIVITY_API_PHASE_ENTER) (active_tracer True True True) = Inr t1"
    "hip_api_callback (memcpy_call 250) ''hipMemcpyAsync''
        (memcpy_data ACTIVITY_API_PHASE_EXIT) t1 = Inr t2"
    "begin_events (trace t2) =
          [TraceEventBegin ''host'' ''hipMemcpyAsync'' 100 1 (Some 3)
             [(''pcid'', Num 2), (''cid'', Num 3), (''tid'', Num 1), (''depth'', Num 1),
              (''corr_id'', Num 7)],
           BundleStart 7 ''hipMemcpyAsync'' 1,
           CriticalTrace CPU BEGIN 1 3 7 2 100 0 16 ''hipMemcpyAsync'' 1 0]"
    "end_events (trace t2) =
          [TraceEventEnd ''host'' 250 1, BundleStop 7 1,
           CriticalTrace CPU END 1 3 7 2 250 250 16 ''hipMemcpyAsync'' 1 0]"
    using host_api_begin_end [of "active_tracer True True True" "memcpy_call 100" "''hipMemcpyAsync''"
        "memcpy_call 250" "''hipMemcpyAsync''" "''hipMemcpyAsync''"
        "memcpy_data ACTIVITY_API_PHASE_ENTER" "memcpy_data ACTIVITY_API_PHASE_EXIT" 3 2 1 3 2 1,
        OF memcpy_facts(1) memcpy_facts(2) memcpy_facts(3) memcpy_facts(3) memcpy_facts(4)
           memcpy_facts(4) memcpy_facts(5) memcpy_facts(5) c9 c10 memcpy_sinks(1) memcpy_facts(7)
           c13]
    by (auto simp: memcpy_facts memcpy_sinks)
  then show ?thesis by blast
qed

text \<open>
  C1 as stated fails in two ways. With no sink enabled the \<open>ENTER\<close> phase of a traced
  call emits no event at all; it only takes and releases the lock of the activity queue.
  And with the perfetto sink enabled, when the clock reads 9 in the \<open>ENTER\<close> call and 4
  in the \<open>EXIT\<close> call, the \<open>END\<close> event carries the smaller timestamp: the callback
  does not compare the two.
\<close>

theorem host_api_no_sink_counterexample:
  "map_sum id trace
     (hip_api_callback (memcpy_call 100) ''hipMemcpyAsync''
        (memcpy_data ACTIVITY_API_PHASE_ENTER) (active_tracer False False False))
   = Inr [Acquire 1, Release 1]
   \<and> (\<exists>t1 t2. hip_api_callback (memcpy_call 9) ''hipMemcpyAsync''
              (memcpy_data ACTIVITY_API_PHASE_ENTER) (active_tracer True False False) = Inr t1
     \<and> hip_api_callback (memcpy_call 4) ''hipMemcpyAsync''
              (memcpy_data ACTIVITY_API_PHASE_EXIT) t1 = Inr t2
     \<and> host_begins (trace t2) =
          [TraceEventBegin ''host'' ''hipMemcpyAsync'' 9 1 (Some 3)
             [(''pcid'', Num 2), (''cid'', Num 3), (''tid'', Num 1), (''depth'', Num 1),
              (''corr_id'', Num 7)]]
     \<and> host_ends (trace t2) = [TraceEventEnd ''host'' 4 1])"
proof -
  have "hip_api_callback (memcpy_call 100) ''hipMemcpyAsync''
        (memcpy_data ACTIVITY_API_PHASE_ENTER) (active_tracer False False False)
      = Inr (hip_api_enter (memcpy_call 100) ''hipMemcpyAsync'' ''hipMemcpyAsync'' 16
               (memcpy_data ACTIVITY_API_PHASE_ENTER) (active_tracer False False False))"
    by (simp add: hip_api_callback_def memcpy_facts)
      (simp add: memcpy_call_def memcpy_data_def hip_queue_apis_def)
  then have a: "map_sum id trace
     (hip_api_callback (memcpy_call 100) ''hipMemcpyAsync''
        (memcpy_data ACTIVITY_API_PHASE_ENTER) (active_tracer False False False))
   = Inr [Acquire 1, Release 1]"
    by (simp add: hip_api_enter_def enter_cid_data_def enter_critical_trace_def
        enter_timemory_def enter_perfetto_def enter_kernel_name_def kernel_name_def
        hip_exec_activity_callbacks_def acquire_def release_def
        active_tracer_def memcpy_call_def memcpy_data_def)
  have c9: "correlation_id (memcpy_data ACTIVITY_API_PHASE_EXIT) =
            correlation_id (memcpy_data ACTIVITY_API_PHASE_ENTER)"
    by (simp add: memcpy_facts)
  obtain t1 t2 where
    "hip_api_callback (memcpy_call 9) ''hipMemcpyAsync''
        (memcpy_data ACTIVITY_API_PHASE_ENTER) (active_tracer True False False) = Inr t1"
    "hip_api_callback (memcpy_call 4) ''hipMemcpyAsync''
        (memcpy_data ACTIVITY_API_PHASE_EXIT) t1 = Inr t2"
    "host_begins (trace t2) =
          [TraceEventBegin ''host'' ''hipMemcpyAsync'' 9 1 (Some 3)
             [(''pcid'', Num 2), (''cid'', Num 3), (''tid'', Num 1), (''depth'', Num 1),
              (''corr_id'', Num 7)]]"
    "host_ends (trace t2) = [TraceEventEnd ''host'' 4 1]"
    using hip_api_pair [of "active_tracer True False False" "memcpy_call 9" "''hipMemcpyAsync''"
        "memcpy_call 4" "''hipMemcpyAsync''" "''hipMemcpyAsync''"
        "memcpy_data ACTIVITY_API_PHASE_ENTER" "memcpy_data ACTIVITY_API_PHASE_EXIT" 3 2 1,
        OF memcpy_facts(1) memcpy_facts(2) memcpy_facts(3) memcpy_facts(3) memcpy_facts(4)
           memcpy_facts(4) memcpy_facts(5) memcpy_facts(5) c9 memcpy_facts(7)]
    by (auto simp: memcpy_facts)
  then have b: "\<exists>t1 t2. hip_api_callback (memcpy_call 9) ''hipMemcpyAsync''
              (memcpy_data ACTIVITY_API_PHASE_ENTER) (active_tracer True False False) = Inr t1
     \<and> hip_api_callback (memcpy_call 4) ''hipMemcpyAsync''
              (memcpy_data ACTIVITY_API_PHASE_EXIT) t1 = Inr t2
     \<and> host_begins (trace t2) =
          [TraceEventBegin ''host'' ''hipMemcpyAsync'' 9 1 (Some 3)
             [(''pcid'', Num 2), (''cid'', Num 3), (''tid'', Num 1), (''depth'', Num 1),
              (''corr_id'', Num 7)]]
     \<and> host_ends (trace t2) = [TraceEventEnd ''host'' 4 1]"
    by blast
  show ?thesis
    by (rule conjI [OF a b])
qed

text \<open>
  C7 does not hold for the HIP API callback: the \<open>BEGIN\<close> event is written in the
  \<open>ENTER\<close> phase and the \<open>END\<close> event in the \<open>EXIT\<close> phase, with no comparison of the two
  timestamps. Here the clock reads 5 on \<open>ENTER\<close> and 3 on \<open>EXIT\<close>, and both events are
  emitted.
\<close>

theorem hip_inversion_not_dropped_counterexample:
  "\<exists>t1 t2. hip_api_callback (memcpy_call 5) ''hipMemcpyAsync''
              (memcpy_data ACTIVITY_API_PHASE_ENTER) (active_tracer True False False) = Inr t1
     \<and> hip_api_callback (memcpy_call 3) ''hipMemcpyAsync''
              (memcpy_data ACTIVITY_API_PHASE_EXIT) t1 = Inr t2
     \<and> host_begins (trace t2) =
          [TraceEventBegin ''host'' ''hipMemcpyAsync'' 5 1 (Some 3)
             [(''pcid'', Num 2), (''cid'', Num 3), (''tid'', Num 1), (''depth'', Num 1),
              (''corr_id'', Num 7)]]
     \<and> host_ends (trace t2) = [TraceEventEnd ''host'' 3 1]
     \<and> sint (5 :: int64) > sint (3 :: int64)"
proof -
  have c9: "correlation_id (memcpy_data ACTIVITY_API_PHASE_EXIT) =
            correlation_id (memcpy_data ACTIVITY_API_PHASE_ENTER)"
    by (simp add: memcpy_facts)
  obtain t1 t2 where
    "hip_api_callback (memcpy_call 5) ''hipMemcpyAsync''
        (memcpy_data ACTIVITY_API_PHASE_ENTER) (active_tracer True False False) = Inr t1"
    "hip_api_callback (memcpy_call 3) ''hipMemcpyAsync''
        (memcpy_data ACTIVITY_API_PHASE_EXIT) t1 = Inr t2"
    "host_begins (trace t2) =
          [TraceEventBegin ''host'' ''hipMemcpyAsync'' 5 1 (Some 3)
             [(''pcid'', Num 2), (''cid'', Num 3), (''tid'', Num 1), (''depth'', Num 1),
              (''corr_id'', Num 7)]]"
    "host_ends (trace t2) = [TraceEventEnd ''host'' 3 1]"
    using hip_api_pair [of "active_tracer True False False" "memcpy_call 5" "''hipMemcpyAsync''"
        "memcpy_call 3" "''hipMemcpyAsync''" "''hipMemcpyAsync''"
        "memcpy_data ACTIVITY_API_PHASE_ENTER" "memcpy_data ACTIVITY_API_PHASE_EXIT" 3 2 1,
        OF memcpy_facts(1) memcpy_facts(2) memcpy_facts(3) memcpy_facts(3) memcpy_facts(4)
           memcpy_facts(4) memcpy_facts(5) memcpy_facts(5) c9 memcpy_facts(7)]
    by (auto simp: memcpy_facts)
  then show ?thesis by auto
qed

section \<open>Properties of hip_activity_callback\<close>

text \<open>
  The callback changes neither the registry nor the switches: what it reads of them is the
  same for every record of a buffer.
\<close>

lemma activity_perfetto_registry:
  "registry_view (activity_perfetto dem thread r name b e c t) = registry_view t
   \<and> activity_callbacks (activity_perfetto dem thread r name b e c t) = activity_callbacks t"
  by (simp add: activity_perfetto_def emit_def registry_view_def)

lemma activity_critical_trace_registry:
  "registry_view (activity_critical_trace r name b e tid laps known t) = registry_view t
   \<and> activity_callbacks (activity_critical_trace r name b e tid laps known t) = activity_callbacks t"
  by (cases known) (auto simp: activity_critical_trace_def emit_def registry_view_def Let_def)

lemma activity_enqueue_registry:
  "activity_enqueue tid func t = Inr t' \<Longrightarrow> registry_view t' = registry_view t"
  by (cases "activity_callbacks t tid")
    (auto simp: activity_enqueue_def acquire_def release_def registry_view_def Let_def)

lemma activity_record_registry:
  assumes "hip_activity_record ops dem thread r t = Inr t'"
  shows "registry_view t' = registry_view t"
proof -
  let ?corr = "record_correlation_id r"
  let ?t1 = "t\<lparr>indexes := (indexes t)(?corr := indexes t ?corr + 1)\<rparr>"
  have v1: "registry_view ?t1 = registry_view t"
    by (simp add: registry_view_def)
  show ?thesis
    using assms v1
    by (auto simp: hip_activity_record_def Let_def activity_critical_trace_registry
        activity_perfetto_registry
        split: if_splits option.splits dest!: activity_enqueue_registry)
qed

lemma activity_records_registry:
  "hip_activity_records ops dem thread buffer t = Inr t' \<Longrightarrow> registry_view t' = registry_view t"
proof (induction buffer arbitrary: t)
  case Nil
  then show ?case by simp
next
  case (Cons r buffer)
  then obtain t1 where t1: "hip_activity_record ops dem thread r t = Inr t1"
    "hip_activity_records ops dem thread buffer t1 = Inr t'"
    by (cases "hip_activity_record ops dem thread r t") simp_all
  show ?case
    using Cons.IH [OF t1(2)] activity_record_registry [OF t1(1)] by simp
qed

lemma activity_records_append:
  "hip_activity_records ops dem thread pre t = Inr tm \<Longrightarrow>
     hip_activity_records ops dem thread (pre @ rest) t = hip_activity_records ops dem thread rest tm"
proof (induction pre arbitrary: t)
  case Nil
  then show ?case by simp
next
  case (Cons r pre)
  then obtain t1 where t1: "hip_activity_record ops dem thread r t = Inr t1"
    "hip_activity_records ops dem thread pre t1 = Inr tm"
    by (cases "hip_activity_record ops dem thread r t") simp_all
  show ?case
    using Cons.IH [OF t1(2)] t1(1) by simp
qed

text \<open>One record whose correlation id has no entry in the thread map.\<close>

lemma activity_unknown_record:
  assumes "domain r = ACTIVITY_DOMAIN_HIP_OPS" and "op r \<le> HIP_OP_ID_BARRIER"
    and "tid_data t (record_correlation_id r) = None"
    and "ops (domain r) (op r) (kind r) = Some n"
    and "known = (if use_critical_trace t \<or> use_rocm_smi t
                  then cid_data t (record_correlation_id r) else None)"
  shows "\<exists>t'. hip_activity_record ops dem thread r t = Inr t'
     \<and> trace t' = trace t @
         (if use_perfetto t
          then [Emit (TraceEventBegin ''device'' (dem n) (begin_ns r + clock_skew t) thread
                        (Some (case known of None \<Rightarrow> 0 | Some (c, p, dp) \<Rightarrow> c))
                        [(''corr_id'', Num (int (record_correlation_id r))),
                         (''device'', Num (device_id r)), (''queue'', Num (int (queue_id r))),
                         (''op'', Str (op_id_names ! op r))]),
                Emit (TraceEventEnd ''device'' (end_ns r + clock_skew t) thread),
                Emit (TraceEventEnd ''device'' (end_ns r + clock_skew t) thread)]
          else []) @
         (case known of
            None \<Rightarrow> []
          | Some (c, p, dp) \<Rightarrow>
              [Emit (CriticalTrace GPU DELTA 0 c (record_correlation_id r) c
                       (begin_ns r + clock_skew t) (end_ns r + clock_skew t) (queue_id r) n
                       (sint dp + 1) (ucast (indexes t (record_correlation_id r) + 1)))])
     \<and> activity_callbacks t' = activity_callbacks t"
proof -
  let ?corr = "record_correlation_id r"
  let ?t1 = "t\<lparr>indexes := (indexes t)(?corr := indexes t ?corr + 1)\<rparr>"
  let ?cid = "case known of None \<Rightarrow> 0 | Some (c, p, dp) \<Rightarrow> c"
  let ?t2 = "activity_perfetto dem thread r n (begin_ns r + clock_skew t)
               (end_ns r + clock_skew t) ?cid ?t1"
  let ?t3 = "activity_critical_trace r n (begin_ns r + clock_skew t) (end_ns r + clock_skew t)
               0 (indexes t ?corr) known ?t2"
  have e: "hip_activity_record ops dem thread r t = Inr ?t3"
    using assms by (simp add: hip_activity_record_def Let_def)
  have p: "trace ?t2 = trace t @
         (if use_perfetto t
          then [Emit (TraceEventBegin ''device'' (dem n) (begin_ns r + clock_skew t) thread
                        (Some ?cid)
                        [(''corr_id'', Num (int (record_correlation_id r))),
                         (''device'', Num (device_id r)), (''queue'', Num (int (queue_id r))),
                         (''op'', Str (op_id_names ! op r))]),
                Emit (TraceEventEnd ''device'' (end_ns r + clock_skew t) thread),
                Emit (TraceEventEnd ''device'' (end_ns r + clock_skew t) thread)]
          else [])"
    by (simp add: activity_perfetto_def emit_def)
  have c: "trace ?t3 = trace ?t2 @
         (case known of
            None \<Rightarrow> []
          | Some (c, p, dp) \<Rightarrow>
              [Emit (CriticalTrace GPU DELTA 0 c (record_correlation_id r) c
                       (begin_ns r + clock_skew t) (end_ns r + clock_skew t) (queue_id r) n
                       (sint dp + 1) (ucast (indexes t (record_correlation_id r) + 1)))])"
    by (cases known) (auto simp: activity_critical_trace_def emit_def Let_def)
  have f: "activity_callbacks ?t3 = activity_callbacks t"
    by (simp add: activity_critical_trace_registry activity_perfetto_registry)
  show ?thesis
    unfolding e using p c f by simp
qed

text \<open>
  C2. An activity record \<open>r\<close> of the HIP ops domain with an op id up to \<open>BARRIER\<close>, whose
  correlation id has no entry in the thread map of the registry and for which the
  op-string helper returns the name \<open>n\<close>, anywhere in a buffer: \<open>pre\<close> are the records
  before it, which may be registered or not, \<open>post\<close> the records after it, and \<open>tm\<close> is the
  tracer when the loop gets to \<open>r\<close>. With the perfetto sink enabled the callback writes one
  device span for \<open>r\<close> (one \<open>BEGIN\<close> and two \<open>END\<close> events), named by the demangled
  op-string name, on the thread that runs the callback; with the sink disabled it writes
  no span. When a critical trace is wanted and the causal triple of the id is registered
  it adds one critical trace entry, which carries thread id 0. These are all the entries
  that \<open>r\<close> adds to the trace, no closure is appended to any activity queue, and the loop
  goes on with the records after \<open>r\<close>.
\<close>

theorem unknown_correlation_generic_span:
  assumes "state t = Active" and "roctracer_enabled t"
    and "hip_activity_records ops dem thread pre t = Inr tm"
    and "domain r = ACTIVITY_DOMAIN_HIP_OPS" and "op r \<le> HIP_OP_ID_BARRIER"
    and "tid_data t (record_correlation_id r) = None"
    and "ops (domain r) (op r) (kind r) = Some n"
    and "known = (if use_critical_trace t \<or> use_rocm_smi t
                  then cid_data t (record_correlation_id r) else None)"
  shows "\<exists>tr. hip_activity_record ops dem thread r tm = Inr tr
     \<and> hip_activity_callback ops dem thread (pre @ r # post) t
         = hip_activity_records ops dem thread post tr
     \<and> trace tr = trace tm @
         (if use_perfetto t
          then [Emit (TraceEventBegin ''device'' (dem n) (begin_ns r + clock_skew t) thread
                        (Some (case known of None \<Rightarrow> 0 | Some (c, p, dp) \<Rightarrow> c))
                        [(''corr_id'', Num (int (record_correlation_id r))),
                         (''device'', Num (device_id r)), (''queue'', Num (int (queue_id r))),
                         (''op'', Str (op_id_names ! op r))]),
                Emit (TraceEventEnd ''device'' (end_ns r + clock_skew t) thread),
                Emit (TraceEventEnd ''device'' (end_ns r + clock_skew t) thread)]
          else []) @
         (case known of
            None \<Rightarrow> []
          | Some (c, p, dp) \<Rightarrow>
              [Emit (CriticalTrace GPU DELTA 0 c (record_correlation_id r) c
                       (begin_ns r + clock_skew t) (end_ns r + clock_skew t) (queue_id r) n
                       (sint dp + 1) (ucast (indexes tm (record_correlation_id r) + 1)))])
     \<and> activity_callbacks tr = activity_callbacks tm"
proof -
  have v: "registry_view tm = registry_view t"
    by (rule activity_records_registry [OF assms(3)])
  then have m: "tid_data tm (record_correlation_id r) = None"
    "known = (if use_critical_trace tm \<or> use_rocm_smi tm
              then cid_data tm (record_correlation_id r) else None)"
    "use_perfetto tm = use_perfetto t" "clock_skew tm = clock_skew t"
    using assms(6,8) by (simp_all add: registry_view_def)
  obtain tr where tr: "hip_activity_record ops dem thread r tm = Inr tr"
    "trace tr = trace tm @
         (if use_perfetto tm
          then [Emit (TraceEventBegin ''device'' (dem n) (begin_ns r + clock_skew tm) thread
                        (Some (case known of None \<Rightarrow> 0 | Some (c, p, dp) \<Rightarrow> c))
                        [(''corr_id'', Num (int (record_correlation_id r))),
                         (''device'', Num (device_id r)), (''queue'', Num (int (queue_id r))),
                         (''op'', Str (op_id_names ! op r))]),
                Emit (TraceEventEnd ''device'' (end_ns r + clock_skew tm) thread),
                Emit (TraceEventEnd ''device'' (end_ns r + clock_skew tm) thread)]
          else []) @
         (case known of
            None \<Rightarrow> []
          | Some (c, p, dp) \<Rightarrow>
              [Emit (CriticalTrace GPU DELTA 0 c (record_correlation_id r) c
                       (begin_ns r + clock_skew tm) (end_ns r + clock_skew tm) (queue_id r) n
                       (sint dp + 1) (ucast (indexes tm (record_correlation_id r) + 1)))])"
    "activity_callbacks tr = activity_callbacks tm"
    using activity_unknown_record [of r tm ops n known dem thread, OF assms(4,5) m(1) _ m(2)]
      assms(7) by blast
  have "hip_activity_callback ops dem thread (pre @ r # post) t
         = hip_activity_records ops dem thread (pre @ r # post) t"
    using assms(1,2) by (simp add: hip_activity_callback_def)
  also have "\<dots> = hip_activity_records ops dem thread (r # post) tm"
    by (rule activity_records_append [OF assms(3)])
  also have "\<dots> = hip_activity_records ops dem thread post tr"
    using tr(1) by simp
  finally have l: "hip_activity_callback ops dem thread (pre @ r # post) t
         = hip_activity_records ops dem thread post tr" .
  show ?thesis
    by (rule exI [of _ tr]) (intro conjI tr(1) l tr(2) [unfolded m(3,4)] tr(3))
qed

text \<open>
  A buffer with a dispatch record whose correlation id 42 is registered, followed by a
  copy record whose correlation id 999 is not in the thread map, handled on thread 2. The
  first record gives a span and a critical trace entry for \<open>foo\<close> and a closure on the
  queue of thread 1; the second gives a span \<open>COPY\<close> on thread 2, a critical trace entry
  with thread id 0, and no closure.
\<close>

theorem unknown_correlation_generic_span_witness:
  "\<exists>tr. hip_activity_callback generic_op_string id 2 [dispatch_record 42, copy_record 999]
          registry_tracer = Inr tr
     \<and> trace tr =
         [Emit (TraceEventBegin ''device'' ''foo'' 1000 2 (Some 5)
                  [(''corr_id'', Num 42), (''device'', Num 0), (''queue'', Num 0),
                   (''op'', Str ''DISPATCH'')]),
          Emit (TraceEventEnd ''device'' 2000 2), Emit (TraceEventEnd ''device'' 2000 2),
          Emit (CriticalTrace GPU DELTA 1 5 42 5 1000 2000 0 ''foo'' 2 1),
          Acquire 1, Release 1,
          Emit (TraceEventBegin ''device'' ''COPY'' 1000 2 (Some 3)
                  [(''corr_id'', Num 999), (''device'', Num 0), (''queue'', Num 0),
                   (''op'', Str ''COPY'')]),
          Emit (TraceEventEnd ''device'' 2000 2), Emit (TraceEventEnd ''device'' 2000 2),
          Emit (CriticalTrace GPU DELTA 0 3 999 3 1000 2000 0 ''COPY'' 2 1)]
     \<and> activity_callbacks tr 1 = Some [Some (Closure ''foo'' 1000 2000)]
     \<and> activity_callbacks tr 2 = Some [] \<and> activity_callbacks tr 0 = Some []"
proof -
  let ?pre = "hip_activity_records generic_op_string id 2 [dispatch_record 42] registry_tracer"
  have e: "?pre = Inr (projr ?pre)"
    by (simp add: hip_activity_record_def activity_perfetto_def activity_critical_trace_def
        activity_enqueue_def acquire_def release_def emit_def dispatch_record_def
        registry_tracer_def active_tracer_def generic_op_string_def op_id_names_def
        HIP_OP_ID_DISPATCH_def HIP_OP_ID_BARRIER_def Let_def)
  have m: "trace (projr ?pre) =
         [Emit (TraceEventBegin ''device'' ''foo'' 1000 2 (Some 5)
                  [(''corr_id'', Num 42), (''device'', Num 0), (''queue'', Num 0),
                   (''op'', Str ''DISPATCH'')]),
          Emit (TraceEventEnd ''device'' 2000 2), Emit (TraceEventEnd ''device'' 2000 2),
          Emit (CriticalTrace GPU DELTA 1 5 42 5 1000 2000 0 ''foo'' 2 1),
          Acquire 1, Release 1]"
    "activity_callbacks (projr ?pre) 1 = Some [Some (Closure ''foo'' 1000 2000)]"
    "activity_callbacks (projr ?pre) 2 = Some []" "activity_callbacks (projr ?pre) 0 = Some []"
    "indexes (projr ?pre) 999 = 0"
    by (simp_all add: hip_activity_record_def activity_perfetto_def activity_critical_trace_def
        activity_enqueue_def acquire_def release_def emit_def dispatch_record_def
        registry_tracer_def active_tracer_def generic_op_string_def op_id_names_def
        HIP_OP_ID_DISPATCH_def HIP_OP_ID_BARRIER_def Let_def)
  have a: "state registry_tracer = Active" "roctracer_enabled registry_tracer"
    by (simp_all add: registry_tracer_def active_tracer_def)
  have r: "domain (copy_record 999) = ACTIVITY_DOMAIN_HIP_OPS"
    "op (copy_record 999) \<le> HIP_OP_ID_BARRIER"
    "tid_data registry_tracer (record_correlation_id (copy_record 999)) = None"
    by (simp_all add: copy_record_def registry_tracer_def active_tracer_def HIP_OP_ID_COPY_def
        HIP_OP_ID_BARRIER_def)
  have n: "generic_op_string (domain (copy_record 999)) (op (copy_record 999))
             (kind (copy_record 999)) = Some ''COPY''"
    by (simp add: copy_record_def generic_op_string_def op_id_names_def HIP_OP_ID_COPY_def
        HIP_OP_ID_BARRIER_def)
  have k: "Some (3, 2, 1) =
        (if use_critical_trace registry_tracer \<or> use_rocm_smi registry_tracer
         then cid_data registry_tracer (record_correlation_id (copy_record 999)) else None)"
    by (simp add: copy_record_def registry_tracer_def active_tracer_def)
  have f: "use_perfetto registry_tracer" "clock_skew registry_tracer = 0"
    "begin_ns (copy_record 999) = 1000" "end_ns (copy_record 999) = 2000"
    "record_correlation_id (copy_record 999) = 999" "device_id (copy_record 999) = 0"
    "queue_id (copy_record 999) = 0" "op_id_names ! op (copy_record 999) = ''COPY''"
    by (simp_all add: copy_record_def registry_tracer_def active_tracer_def op_id_names_def
        HIP_OP_ID_COPY_def)
  note u = unknown_correlation_generic_span [of registry_tracer generic_op_string id 2
        "[dispatch_record 42]" "projr ?pre" "copy_record 999" "''COPY''" "Some (3, 2, 1)" "[]",
        OF a e r n k]
  show ?thesis
    using u
  proof (elim exE conjE, goal_cases)
    case (1 tr)
    show ?case
      by (rule exI [of _ tr]) (use 1(2,3,4) m f in simp)
  qed
qed

text \<open>
  C2 as stated fails: with the timemory sink alone (perfetto disabled), a record whose
  correlation id is not registered produces nothing, neither a span nor a closure. And
  when only the thread map lacks the id, the critical trace entry of the record names
  thread 0, whatever thread runs the callback (here thread 2).
\<close>

theorem unknown_correlation_no_span_counterexample:
  "map_sum id (\<lambda>t'. (trace t', activity_callbacks t' 2, activity_callbacks t' 0))
     (hip_activity_callback generic_op_string id 2 [copy_record 999]
        (active_tracer False True False))
   = Inr ([], Some [], Some [])
   \<and> map_sum id trace
     (hip_activity_callback generic_op_string id 2 [copy_record 999]
        ((active_tracer False False True)\<lparr>cid_data := [999 \<mapsto> (3, 2, 1)]\<rparr>))
   = Inr [Emit (CriticalTrace GPU DELTA 0 3 999 3 1000 2000 0 ''COPY'' 2 1)]"
  by (simp add: hip_activity_callback_def hip_activity_record_def activity_perfetto_def
      activity_critical_trace_def emit_def copy_record_def active_tracer_def
      generic_op_string_def op_id_names_def HIP_OP_ID_COPY_def HIP_OP_ID_BARRIER_def Let_def)

section \<open>The model on scenarios of the specification\<close>

text \<open>
  A kernel launch with correlation id 42 on thread 1 registers the kernel name and the
  thread. A dispatch record with that id, from 1000 to 2000 with a skew of -100, handled
  on thread 5, queues a closure for the span of \<open>foo\<close> from 900 to 1900 on the queue of
  thread 1 and nothing on the queue of thread 5.
\<close>

lemma launch_registers_kernel:
  "map_sum id (\<lambda>t. (activity_callbacks t 1, key_data t 42, tid_data t 42))
     (hip_api_callback
        \<lparr>hip_version = (5, 2), op_string = Some ''hipLaunchKernel'', api_name = Some ''hipLaunchKernel'',
         wall_clock = 10, thread_id = 1, cpu_cid_entry = (3, 2, 1), max_supported_threads = 4\<rparr>
        ''hipLaunchKernel''
        \<lparr>phase = ACTIVITY_API_PHASE_ENTER, correlation_id = 42, stream = 16,
         kernel_name_ref = Some ''foo'', kernel_name_ref_retry = None\<rparr>
        (active_tracer False True False))
   = Inr (Some [], Some ''foo'', Some 1)"
  by (simp add: hip_api_callback_def hip_untraced_def hip_queue_apis_def hip_api_enter_def
      enter_cid_data_def enter_critical_trace_def enter_timemory_def enter_perfetto_def
      enter_kernel_name_def kernel_name_def emplace_def emit_def
      hip_exec_activity_callbacks_def acquire_def release_def active_tracer_def Let_def)

lemma completion_queued_for_origin_thread:
  "map_sum id (\<lambda>t. (activity_callbacks t 1, activity_callbacks t 5))
     (hip_activity_callback generic_op_string id 5
        [\<lparr>domain = ACTIVITY_DOMAIN_HIP_OPS, op = HIP_OP_ID_DISPATCH, kind = 0, begin_ns = 1000,
          end_ns = 2000, record_correlation_id = 42, device_id = 0, queue_id = 0, process_id = 1\<rparr>]
        ((active_tracer False True False)\<lparr>clock_skew := - 100, key_data := [42 \<mapsto> ''foo''],
            tid_data := [42 \<mapsto> 1]\<rparr>))
   = Inr (Some [Some (Closure ''foo'' 900 1900)], Some [])"
  by (simp add: hip_activity_callback_def hip_activity_record_def activity_perfetto_def
      activity_critical_trace_def activity_enqueue_def acquire_def release_def emit_def
      active_tracer_def generic_op_string_def op_id_names_def HIP_OP_ID_DISPATCH_def
      HIP_OP_ID_BARRIER_def Let_def)

text \<open>
  The narrow integers of the critical trace entry of an activity record: a registered
  depth of 65535 is read as the \<open>int16_t\<close> -1, so the entry has depth 0, and the 65536th
  record of a correlation id has priority 0.
\<close>

lemma critical_trace_depth_and_priority_wrap:
  "map_sum id trace
     (hip_activity_callback generic_op_string id 2 [copy_record 999]
        ((active_tracer False False True)
           \<lparr>cid_data := [999 \<mapsto> (3, 2, 65535)], indexes := (\<lambda>corr. 65535)\<rparr>))
   = Inr [Emit (CriticalTrace GPU DELTA 0 3 999 3 1000 2000 0 ''COPY'' 0 0)]"
  by (simp add: hip_activity_callback_def hip_activity_record_def activity_perfetto_def
      activity_critical_trace_def emit_def copy_record_def active_tracer_def
      generic_op_string_def op_id_names_def HIP_OP_ID_COPY_def HIP_OP_ID_BARRIER_def Let_def)

text \<open>
  The label of a frame with file name and line number, and a run over a function that
  calls a lambda: the lambda matches the default exclusion \<open>^<.*>$\<close>, so one region is
  pushed and popped.
\<close>

lemma label_with_file_and_line:
  "get_label (default_config\<lparr>include_filename := True, include_line := True\<rparr>) user_frame
     ''main'' ''app.py'' ''/home/user/app.py'' = Inr ''[main][app.py:3]''"
  by (simp add: get_label_def default_config_def user_frame_def string_of_int_def)

lemma call_and_return_balanced:
  "map_sum id regions
     (run_events sample_regex_search (thread_start user_config)
        [(Some user_frame, ''call''), (Some (user_frame\<lparr>co_name := ''<lambda>''\<rparr>), ''call''),
         (Some (user_frame\<lparr>co_name := ''<lambda>''\<rparr>), ''return''), (Some user_frame, ''return'')])
   = Inr [PushRegion ''main'', PopRegion ''main'']"
  by (simp add: profiler_function_def prepare_def thread_start_def user_config_def
      default_config_def user_frame_def what_of_def function_filters_def file_filters_def
      find_matching_def default_exclude_functions_def default_exclude_filenames_def
      sample_regex_search_def starts_with_def get_label_def file_of_def Let_def
      profiler_call_def profiler_return_def)

end
